theory Spec2Isabelle
  imports Main "HOL-Library.Word" "HOL-Library.AList"
begin

section \<open>The script HTTP server of clip-save (common/script\_http\_server.go)\<close>

text \<open>
  The Go file keeps its state in package variables guarded by mutexes: the table of
  enabled scripts, the table \<open>scriptResults\<close> from request IDs to result channels, the
  request counter and the handles of the clean-up task. The model below keeps the
  same variables in one record and passes it through every operation. An operation
  is one atomic step; the handler, which blocks in its \<open>select\<close>, is two: up to the
  \<open>select\<close>, and leaving it. Go strings are byte strings;
  they are modelled as \<open>string\<close> (lists of 8-bit characters), the Chinese messages of
  the source as their UTF-8 bytes.
\<close>

subsection \<open>Run-time panics\<close>

datatype go_panic = SliceOutOfRange | SendOnClosedChannel | CloseOfClosedChannel

text \<open>\<open>s[lo:hi]\<close> and \<open>s[lo:]\<close> on a Go string: a panic unless \<open>lo \<le> hi \<le> len(s)\<close>.\<close>

definition go_slice :: "string \<Rightarrow> nat \<Rightarrow> nat \<Rightarrow> go_panic + string" where
  "go_slice s lo hi =
     (if lo \<le> hi \<and> hi \<le> length s then Inr (take (hi - lo) (drop lo s))
      else Inl SliceOutOfRange)"

definition go_slice_from :: "string \<Rightarrow> nat \<Rightarrow> go_panic + string" where
  "go_slice_from s lo = go_slice s lo (length s)"

subsection \<open>Scripts and their identifiers\<close>

text \<open>
  \<open>UserScript\<close> is declared in another file of the package; the server reads its
  fields \<open>ID\<close>, \<open>PluginID\<close> and \<open>Name\<close> only.
\<close>

record UserScript =
  ID :: string
  PluginID :: string
  Name :: string

definition GetScriptIdentifier :: "UserScript \<Rightarrow> go_panic + string" where
  "GetScriptIdentifier script =
     (if PluginID script \<noteq> [] then Inr (PluginID script)
      else if 15 \<le> length (ID script) then go_slice (ID script) 6 14
      else if 6 < length (ID script) then go_slice_from (ID script) 6
      else Inr (ID script))"


subsection \<open>Script results and their JSON form\<close>

text \<open>
  \<open>ReturnValue\<close> is an \<open>interface{}\<close> filled from a JSON document sent by the front
  end: either nil (\<open>None\<close>) or a JSON-representable value. \<open>json.Marshal\<close> writes a nil
  interface as \<open>null\<close>. Numbers are carried as integers; no operation of the server
  looks inside a payload.
\<close>

datatype json =
  JNull | JBool bool | JNumber int | JString string
  | JArray "json list" | JObject "(string \<times> json) list"

record ScriptHTTPResult =
  ReturnValue :: "json option"
  Error :: string

definition zero_result :: ScriptHTTPResult where
  "zero_result = \<lparr>ReturnValue = None, Error = []\<rparr>"

definition marshal_interface :: "json option \<Rightarrow> json" where
  "marshal_interface v = (case v of None \<Rightarrow> JNull | Some j \<Rightarrow> j)"

subsection \<open>Channels of capacity one\<close>

text \<open>
  \<open>make(chan ScriptHTTPResult, 1)\<close>: a buffer of at most one value and the closed
  flag. A send in a \<open>select\<close> with a \<open>default\<close> case never blocks: it panics on a
  closed channel, fills an empty buffer, and falls to \<open>default\<close> on a full one. A
  receive takes the buffered value, yields the zero value on a closed and empty
  channel, and blocks (\<open>None\<close>) on an open and empty one.
\<close>

record chan =
  buf :: "ScriptHTTPResult option"
  closed :: bool

definition make_chan :: chan where
  "make_chan = \<lparr>buf = None, closed = False\<rparr>"

definition chan_send_nb :: "ScriptHTTPResult \<Rightarrow> chan \<Rightarrow> go_panic + chan" where
  "chan_send_nb v c =
     (if closed c then Inl SendOnClosedChannel
      else if buf c = None then Inr (c\<lparr>buf := Some v\<rparr>)
      else Inr c)"

definition chan_recv :: "chan \<Rightarrow> (ScriptHTTPResult \<times> chan) option" where
  "chan_recv c =
     (case buf c of
        Some v \<Rightarrow> Some (v, c\<lparr>buf := None\<rparr>)
      | None \<Rightarrow> if closed c then Some (zero_result, c) else None)"

definition chan_close :: "chan \<Rightarrow> go_panic + chan" where
  "chan_close c = (if closed c then Inl CloseOfClosedChannel else Inr (c\<lparr>closed := True\<rparr>))"

subsection \<open>The package variables\<close>

text \<open>
  \<open>scriptResults\<close> maps a request ID to a channel; channels are references, so the
  table holds addresses into the store \<open>chans\<close>, and a handler keeps the address of
  its channel after the entry is gone from the table. \<open>httpServer\<close>,
  \<open>cleanupTicker\<close> and \<open>cleanupStopChan\<close> are modelled by whether they are non-nil.
  \<open>globalScriptEventCallback\<close> is declared in another file of the package: the model
  records whether it is set, and the events it was called with.
\<close>

record event =
  eventName :: string
  evRequestID :: string
  evScriptID :: string
  evContent :: string

record server =
  httpServer :: bool
  enabledScripts :: "(string \<times> UserScript) list"
  scriptResults :: "(string \<times> nat) list"
  chans :: "nat \<Rightarrow> chan"
  nextChan :: nat
  requestCounter :: "64 word"
  cleanupTicker :: bool
  cleanupStopChan :: bool
  globalScriptEventCallback :: bool
  emitted :: "event list"

definition registered :: "server \<Rightarrow> string \<Rightarrow> bool" where
  "registered s requestID = (map_of (scriptResults s) requestID \<noteq> None)"

subsection \<open>Request IDs: \<open>fmt.Sprintf("req_%d_%d", ...)\<close>\<close>

definition digit_char :: "nat \<Rightarrow> char" where
  "digit_char d = ''0123456789'' ! d"

fun format_nat :: "nat \<Rightarrow> string" where
  "format_nat n =
     (if n < 10 then [digit_char n] else format_nat (n div 10) @ [digit_char (n mod 10)])"

declare format_nat.simps [simp del]

definition format_d :: "int \<Rightarrow> string" where
  "format_d i = (if i < 0 then CHR ''-'' # format_nat (nat (- i)) else format_nat (nat i))"

definition requestID_of :: "64 word \<Rightarrow> 64 word \<Rightarrow> string" where
  "requestID_of now counter =
     ''req_'' @ format_d (sint now) @ ''_'' @ format_d (sint counter)"

subsection \<open>Reading the timestamp back: \<open>strings.Split\<close> and \<open>fmt.Sscanf("%d")\<close>\<close>

fun split_on :: "char \<Rightarrow> string \<Rightarrow> string list" where
  "split_on sep [] = [[]]"
| "split_on sep (c # cs) =
     (if c = sep then [] # split_on sep cs
      else (case split_on sep cs of [] \<Rightarrow> [[c]] | p # ps \<Rightarrow> (c # p) # ps))"

definition is_digit :: "char \<Rightarrow> bool" where
  "is_digit c = (48 \<le> (of_char c :: nat) \<and> (of_char c :: nat) \<le> 57)"

definition digit_val :: "char \<Rightarrow> nat" where
  "digit_val c = of_char c - 48"

definition parse_digits :: "string \<Rightarrow> nat" where
  "parse_digits ds = foldl (\<lambda>a c. 10 * a + digit_val c) 0 ds"

definition is_blank :: "char \<Rightarrow> bool" where
  "is_blank c = ((of_char c :: nat) \<in> {9, 11, 12, 13, 32})"

text \<open>
  \<open>Sscanf(str, "%d", &timestamp)\<close> with an \<open>int64\<close> target: leading blanks are
  skipped (a newline is an error), one sign is accepted, then the longest run of
  decimal digits is read, at least one; what follows the digits is left unread and is
  no error. The number must fit 64 bits. Blanks beyond ASCII are not modelled; no
  request ID made by the handler has any.
\<close>

definition Sscanf_d :: "string \<Rightarrow> 64 word option" where
  "Sscanf_d str =
     (let s1 = dropWhile is_blank str;
          neg = (s1 \<noteq> [] \<and> hd s1 = CHR ''-'');
          s2 = (if s1 \<noteq> [] \<and> (hd s1 = CHR ''-'' \<or> hd s1 = CHR ''+'') then tl s1 else s1);
          ds = takeWhile is_digit s2;
          v = (if neg then - int (parse_digits ds) else int (parse_digits ds))
      in if ds = [] then None
         else if - (2 ^ 63) \<le> v \<and> v < 2 ^ 63 then Some (word_of_int v)
         else None)"

definition request_expired :: "64 word \<Rightarrow> string \<Rightarrow> bool" where
  "request_expired now requestID =
     (let parts = split_on CHR ''_'' requestID
      in if 2 \<le> length parts then
           (case Sscanf_d (parts ! 1) of
              Some timestamp \<Rightarrow> 60 <s now - timestamp
            | None \<Rightarrow> False)
         else False)"

subsection \<open>HTTP requests and responses\<close>

text \<open>
  Of a request the handler reads the method, the URL path, the query parameter
  \<open>content\<close>, the \<open>Content-Type\<close> header, and the body through the JSON decoder or
  the form parser. The two parsers are library code: the request carries their
  outcome, the error text or the \<open>content\<close> value (for JSON: the field when it is a
  string).
\<close>

record request =
  reqMethod :: string
  urlPath :: string
  queryContent :: string
  headerContentType :: string
  jsonBody :: "string + string option"
  formBody :: "string + string"

datatype body = NoBody | TextBody string | JsonBody json

record response =
  headers :: "(string \<times> string) list"
  status :: nat
  body :: body

definition cors_headers :: "(string \<times> string) list" where
  "cors_headers =
     [(''Access-Control-Allow-Origin'', ''*''),
      (''Access-Control-Allow-Methods'', ''GET, POST, OPTIONS''),
      (''Access-Control-Allow-Headers'', ''Content-Type'')]"

text \<open>\<open>http.Error\<close>: a plain-text body, the message and a newline, under the given status.\<close>

definition http_Error :: "string \<Rightarrow> nat \<Rightarrow> response" where
  "http_Error msg code =
     \<lparr>headers = cors_headers @
        [(''Content-Type'', ''text/plain; charset=utf-8''),
         (''X-Content-Type-Options'', ''nosniff'')],
      status = code,
      body = TextBody (msg @ [CHR 0x0A])\<rparr>"

text \<open>
  \<open>json.NewEncoder(w).Encode(v)\<close> after \<open>Content-Type: application/json\<close>, with no
  explicit status: 200 and the JSON text of \<open>v\<close>.
\<close>

definition json_response :: "json \<Rightarrow> response" where
  "json_response j =
     \<lparr>headers = cors_headers @ [(''Content-Type'', ''application/json'')],
      status = 200,
      body = JsonBody j\<rparr>"

definition msg_missing_identifier :: string where
  "msg_missing_identifier = [CHR 0xE7, CHR 0xBC, CHR 0xBA, CHR 0xE5, CHR 0xB0, CHR 0x91, CHR 0xE8, CHR 0x84, CHR 0x9A, CHR 0xE6, CHR 0x9C, CHR 0xAC, CHR 0xE6, CHR 0xA0, CHR 0x87, CHR 0xE8, CHR 0xAF, CHR 0x86, CHR 0xE7, CHR 0xAC, CHR 0xA6]"

definition msg_not_enabled :: string where
  "msg_not_enabled = [CHR 0xE8, CHR 0x84, CHR 0x9A, CHR 0xE6, CHR 0x9C, CHR 0xAC, CHR 0xE6, CHR 0x9C, CHR 0xAA, CHR 0xE5, CHR 0x90, CHR 0xAF, CHR 0xE7, CHR 0x94, CHR 0xA8, CHR 0x20, CHR 0x48, CHR 0x54, CHR 0x54, CHR 0x50, CHR 0x20, CHR 0xE6, CHR 0x9C, CHR 0x8D, CHR 0xE5, CHR 0x8A, CHR 0xA1]"

definition msg_json_failed :: string where
  "msg_json_failed = [CHR 0xE8, CHR 0xA7, CHR 0xA3, CHR 0xE6, CHR 0x9E, CHR 0x90, CHR 0x20, CHR 0x4A, CHR 0x53, CHR 0x4F, CHR 0x4E, CHR 0x20, CHR 0xE5, CHR 0xA4, CHR 0xB1, CHR 0xE8, CHR 0xB4, CHR 0xA5, CHR 0x3A, CHR 0x20]"

definition msg_form_failed :: string where
  "msg_form_failed = [CHR 0xE8, CHR 0xA7, CHR 0xA3, CHR 0xE6, CHR 0x9E, CHR 0x90, CHR 0xE8, CHR 0xA1, CHR 0xA8, CHR 0xE5, CHR 0x8D, CHR 0x95, CHR 0xE5, CHR 0xA4, CHR 0xB1, CHR 0xE8, CHR 0xB4, CHR 0xA5, CHR 0x3A, CHR 0x20]"

definition msg_method :: string where
  "msg_method = [CHR 0xE4, CHR 0xB8, CHR 0x8D, CHR 0xE6, CHR 0x94, CHR 0xAF, CHR 0xE6, CHR 0x8C, CHR 0x81, CHR 0xE7, CHR 0x9A, CHR 0x84, CHR 0x20, CHR 0x48, CHR 0x54, CHR 0x54, CHR 0x50, CHR 0x20, CHR 0xE6, CHR 0x96, CHR 0xB9, CHR 0xE6, CHR 0xB3, CHR 0x95]"

definition msg_no_executor :: string where
  "msg_no_executor = [CHR 0xE8, CHR 0x84, CHR 0x9A, CHR 0xE6, CHR 0x9C, CHR 0xAC, CHR 0xE6, CHR 0x89, CHR 0xA7, CHR 0xE8, CHR 0xA1, CHR 0x8C, CHR 0xE5, CHR 0x99, CHR 0xA8, CHR 0xE6, CHR 0x9C, CHR 0xAA, CHR 0xE5, CHR 0x88, CHR 0x9D, CHR 0xE5, CHR 0xA7, CHR 0x8B, CHR 0xE5, CHR 0x8C, CHR 0x96]"

definition msg_timeout :: string where
  "msg_timeout = [CHR 0xE8, CHR 0x84, CHR 0x9A, CHR 0xE6, CHR 0x9C, CHR 0xAC, CHR 0xE6, CHR 0x89, CHR 0xA7, CHR 0xE8, CHR 0xA1, CHR 0x8C, CHR 0xE8, CHR 0xB6, CHR 0x85, CHR 0xE6, CHR 0x97, CHR 0xB6]"

definition TrimPrefix :: "string \<Rightarrow> string \<Rightarrow> string" where
  "TrimPrefix s prefix =
     (if take (length prefix) s = prefix then drop (length prefix) s else s)"

fun Contains :: "string \<Rightarrow> string \<Rightarrow> bool" where
  "Contains [] substr = (substr = [])"
| "Contains (c # cs) substr =
     (take (length substr) (c # cs) = substr \<or> Contains cs substr)"

subsection \<open>The handler, up to its wait: lines 249 to 328\<close>

text \<open>The checks before a request ID exists: the response of an early return, or the script and the content.\<close>

definition extract_request :: "request \<Rightarrow> server \<Rightarrow> response + (UserScript \<times> string)" where
  "extract_request r s =
     (if reqMethod r = ''OPTIONS'' then Inl \<lparr>headers = cors_headers, status = 200, body = NoBody\<rparr>
      else
        let path = TrimPrefix (urlPath r) ''/clip-save/'' in
        if path = [] then Inl (http_Error msg_missing_identifier 400)
        else
          (case map_of (enabledScripts s) path of
             None \<Rightarrow> Inl (http_Error msg_not_enabled 404)
           | Some script \<Rightarrow>
               if reqMethod r = ''GET'' then Inr (script, queryContent r)
               else if reqMethod r = ''POST'' then
                 (if Contains (headerContentType r) ''application/json'' then
                    (case jsonBody r of
                       Inl err \<Rightarrow> Inl (http_Error (msg_json_failed @ err) 400)
                     | Inr val \<Rightarrow> Inr (script, (case val of Some c \<Rightarrow> c | None \<Rightarrow> [])))
                  else
                    (case formBody r of
                       Inl err \<Rightarrow> Inl (http_Error (msg_form_failed @ err) 400)
                     | Inr c \<Rightarrow> Inr (script, c)))
               else Inl (http_Error msg_method 405)))"

text \<open>Lines 307 to 310, under \<open>requestCounterMutex\<close>; \<open>now\<close> is \<open>time.Now().Unix()\<close>.\<close>

definition mint_requestID :: "64 word \<Rightarrow> server \<Rightarrow> string \<times> server" where
  "mint_requestID now s =
     (let counter = requestCounter s + 1
      in (requestID_of now counter, s\<lparr>requestCounter := counter\<rparr>))"

text \<open>Lines 313 to 316: a new channel, stored under the request ID.\<close>

definition register_chan :: "string \<Rightarrow> server \<Rightarrow> nat \<times> server" where
  "register_chan requestID s =
     (let resultChan = nextChan s
      in (resultChan,
          s\<lparr>chans := (chans s)(resultChan := make_chan),
            nextChan := resultChan + 1,
            scriptResults := AList.update requestID resultChan (scriptResults s)\<rparr>))"

text \<open>A handler blocked in its \<open>select\<close> holds its request ID and its channel.\<close>

record pending =
  pRequestID :: string
  pResultChan :: nat

definition handleScriptHTTPRequest_start ::
    "64 word \<Rightarrow> request \<Rightarrow> server \<Rightarrow> (response + pending) \<times> server" where
  "handleScriptHTTPRequest_start now r s =
     (case extract_request r s of
        Inl resp \<Rightarrow> (Inl resp, s)
      | Inr (script, content) \<Rightarrow>
          (case mint_requestID now s of (requestID, s1) \<Rightarrow>
          (case register_chan requestID s1 of (resultChan, s2) \<Rightarrow>
             if globalScriptEventCallback s2 then
               (Inr \<lparr>pRequestID = requestID, pResultChan = resultChan\<rparr>,
                s2\<lparr>emitted := emitted s2 @
                   [\<lparr>eventName = ''script.http.execute'', evRequestID = requestID,
                     evScriptID = ID script, evContent = content\<rparr>]\<rparr>)
             else (Inl (http_Error msg_no_executor 500), s2))))"

subsection \<open>The handler's wait: lines 331 to 356\<close>

text \<open>
  The \<open>select\<close> has two cases: a receive from the handler's channel, and the
  30-second timer. \<open>timer_fired\<close> says whether the 30 seconds have passed. A case
  that is not ready cannot be taken (\<open>None\<close>: the handler stays blocked); when both
  are ready Go takes either.
\<close>

datatype select_case = CaseResult | CaseTimeout

definition select_ready :: "bool \<Rightarrow> pending \<Rightarrow> server \<Rightarrow> select_case list" where
  "select_ready timer_fired p s =
     (if chan_recv (chans s (pResultChan p)) \<noteq> None then [CaseResult] else []) @
     (if timer_fired then [CaseTimeout] else [])"

definition write_result :: "ScriptHTTPResult \<Rightarrow> response" where
  "write_result result =
     (if Error result \<noteq> [] then
        json_response (JObject [(''error'', JString (Error result))])
      else
        json_response (JObject [(''returnValue'', marshal_interface (ReturnValue result))]))"

definition handleScriptHTTPRequest_select ::
    "select_case \<Rightarrow> bool \<Rightarrow> pending \<Rightarrow> server \<Rightarrow> (response \<times> server) option" where
  "handleScriptHTTPRequest_select c timer_fired p s =
     (case c of
        CaseResult \<Rightarrow>
          (case chan_recv (chans s (pResultChan p)) of
             None \<Rightarrow> None
           | Some (result, ch) \<Rightarrow>
               Some (write_result result,
                     s\<lparr>chans := (chans s)(pResultChan p := ch),
                       scriptResults := AList.delete (pRequestID p) (scriptResults s)\<rparr>))
      | CaseTimeout \<Rightarrow>
          if timer_fired then
            Some (http_Error msg_timeout 408,
                  s\<lparr>scriptResults := AList.delete (pRequestID p) (scriptResults s)\<rparr>)
          else None)"

subsection \<open>\<open>SetScriptHTTPResult\<close>: lines 360 to 372\<close>

text \<open>The Go function has no result value: the model returns the new state, or the panic.\<close>

definition SetScriptHTTPResult :: "string \<Rightarrow> ScriptHTTPResult \<Rightarrow> server \<Rightarrow> go_panic + server" where
  "SetScriptHTTPResult requestID result s =
     (case map_of (scriptResults s) requestID of
        None \<Rightarrow> Inr s
      | Some resultChan \<Rightarrow>
          (case chan_send_nb result (chans s resultChan) of
             Inl p \<Rightarrow> Inl p
           | Inr ch \<Rightarrow> Inr (s\<lparr>chans := (chans s)(resultChan := ch)\<rparr>)))"

text \<open>
  What a call hands back to its caller: the function declares no result parameter,
  so a call that returns hands back no value.
\<close>

definition SetScriptHTTPResult_returns ::
    "string \<Rightarrow> ScriptHTTPResult \<Rightarrow> server \<Rightarrow> go_panic + bool list" where
  "SetScriptHTTPResult_returns requestID result s =
     (case SetScriptHTTPResult requestID result s of Inl p \<Rightarrow> Inl p | Inr s' \<Rightarrow> Inr [])"

subsection \<open>One tick of \<open>cleanupExpiredResults\<close>: lines 129 to 150\<close>

text \<open>
  The loop ranges over the entries of \<open>scriptResults\<close> and deletes only the entry it
  is at, so it visits every entry the table had at the start of the tick.
\<close>

fun cleanup_range ::
    "64 word \<Rightarrow> (string \<times> nat) list \<Rightarrow> server \<Rightarrow> nat \<Rightarrow> go_panic + (server \<times> nat)" where
  "cleanup_range now [] s expiredCount = Inr (s, expiredCount)"
| "cleanup_range now ((requestID, resultChan) # rest) s expiredCount =
     (if request_expired now requestID then
        (case chan_close (chans s resultChan) of
           Inl p \<Rightarrow> Inl p
         | Inr ch \<Rightarrow>
             cleanup_range now rest
               (s\<lparr>chans := (chans s)(resultChan := ch),
                  scriptResults := AList.delete requestID (scriptResults s)\<rparr>)
               (expiredCount + 1))
      else cleanup_range now rest s expiredCount)"

definition cleanupExpiredResults_tick :: "64 word \<Rightarrow> server \<Rightarrow> go_panic + (server \<times> nat)" where
  "cleanupExpiredResults_tick now s = cleanup_range now (scriptResults s) s 0"

subsection \<open>Starting and stopping the server: lines 55 to 120\<close>

datatype server_error = AlreadyRunning | StopFailed string

definition StartScriptHTTPServer :: "server \<Rightarrow> server_error option \<times> server" where
  "StartScriptHTTPServer s =
     (if httpServer s then (Some AlreadyRunning, s)
      else (None, s\<lparr>httpServer := True, cleanupStopChan := True, cleanupTicker := True\<rparr>))"

fun close_all_results :: "(string \<times> nat) list \<Rightarrow> server \<Rightarrow> go_panic + server" where
  "close_all_results [] s = Inr s"
| "close_all_results ((requestID, resultChan) # rest) s =
     (case chan_close (chans s resultChan) of
        Inl p \<Rightarrow> Inl p
      | Inr ch \<Rightarrow>
          close_all_results rest
            (s\<lparr>chans := (chans s)(resultChan := ch),
               scriptResults := AList.delete requestID (scriptResults s)\<rparr>))"

text \<open>\<open>closeErr\<close> is what \<open>httpServer.Close()\<close> returns: \<open>None\<close> for nil, or the error's text.\<close>

definition StopScriptHTTPServer ::
    "string option \<Rightarrow> server \<Rightarrow> go_panic + (server_error option \<times> server)" where
  "StopScriptHTTPServer closeErr s =
     (if \<not> httpServer s then Inr (None, s)
      else
        let s1 = s\<lparr>cleanupTicker := False, cleanupStopChan := False\<rparr> in
        (case closeErr of
           Some err \<Rightarrow> Inr (Some (StopFailed err), s1)
         | None \<Rightarrow>
             (case close_all_results (scriptResults s1) s1 of
                Inl p \<Rightarrow> Inl p
              | Inr s2 \<Rightarrow> Inr (None, s2\<lparr>httpServer := False\<rparr>))))"

subsection \<open>The state at process start, and the invariant of the table\<close>

definition initial_server :: "(string \<times> UserScript) list \<Rightarrow> bool \<Rightarrow> server" where
  "initial_server scripts callback =
     \<lparr>httpServer = False, enabledScripts = scripts, scriptResults = [],
      chans = (\<lambda>_. make_chan), nextChan = 0, requestCounter = 0,
      cleanupTicker = False, cleanupStopChan = False,
      globalScriptEventCallback = callback, emitted = []\<rparr>"

text \<open>
  A channel is closed only together with the removal of its entry, under the write
  lock, and every entry gets a channel of its own: so the channels in the table are
  open, allocated, and pairwise different.
\<close>

definition wf_server :: "server \<Rightarrow> bool" where
  "wf_server s =
     (distinct (map fst (scriptResults s)) \<and> distinct (map snd (scriptResults s)) \<and>
      list_all (\<lambda>e. snd e < nextChan s \<and> \<not> closed (chans s (snd e))) (scriptResults s))"

text \<open>The channels of a store after closing those at the addresses in \<open>A\<close>.\<close>

definition close_chans :: "nat set \<Rightarrow> (nat \<Rightarrow> chan) \<Rightarrow> (nat \<Rightarrow> chan)" where
  "close_chans A h = (\<lambda>a. if a \<in> A then (h a)\<lparr>closed := True\<rparr> else h a)"

subsection \<open>Runs\<close>

text \<open>
  Successive executions of lines 307 to 310, one per clock reading: the request IDs
  made, each with the value of the counter it was made from.
\<close>

fun mint_run :: "64 word list \<Rightarrow> server \<Rightarrow> (string \<times> 64 word) list" where
  "mint_run [] s = []"
| "mint_run (now # nows) s =
     (case mint_requestID now s of
        (requestID, s') \<Rightarrow> (requestID, requestCounter s') # mint_run nows s')"

text \<open>
  The steps the server takes, each atomic: a request handled up to its wait, a
  waiting handler leaving its \<open>select\<close> (a case that is not ready is no step), a
  delivery, a tick of the clean-up task, a start and a stop.
\<close>

datatype action =
  Request "64 word" request
  | Select select_case bool pending
  | Deliver string ScriptHTTPResult
  | Tick "64 word"
  | Start
  | Stop "string option"

fun step :: "action \<Rightarrow> server \<Rightarrow> go_panic + server" where
  "step (Request now r) s = Inr (snd (handleScriptHTTPRequest_start now r s))"
| "step (Select c timer_fired p) s =
     (case handleScriptHTTPRequest_select c timer_fired p s of
        None \<Rightarrow> Inr s
      | Some (resp, s') \<Rightarrow> Inr s')"
| "step (Deliver requestID result) s = SetScriptHTTPResult requestID result s"
| "step (Tick now) s =
     (case cleanupExpiredResults_tick now s of Inl p \<Rightarrow> Inl p | Inr (s', n) \<Rightarrow> Inr s')"
| "step Start s = Inr (snd (StartScriptHTTPServer s))"
| "step (Stop closeErr) s =
     (case StopScriptHTTPServer closeErr s of Inl p \<Rightarrow> Inl p | Inr (err, s') \<Rightarrow> Inr s')"

fun run :: "action list \<Rightarrow> server \<Rightarrow> go_panic + server" where
  "run [] s = Inr s"
| "run (a # as) s = (case step a s of Inl p \<Rightarrow> Inl p | Inr s' \<Rightarrow> run as s')"

subsection \<open>A small run, for concrete checks\<close>

text \<open>
  One script enabled under the identifier \<open>abc123\<close>, the server started, and the
  request \<open>GET /clip-save/abc123?content=test\<close> arriving at clock reading 100.
\<close>

definition example_script :: UserScript where
  "example_script = \<lparr>ID = ''user_1700000000_ab'', PluginID = ''abc123'', Name = ''upper''\<rparr>"

definition example_request :: request where
  "example_request =
     \<lparr>reqMethod = ''GET'', urlPath = ''/clip-save/abc123'', queryContent = ''test'',
      headerContentType = [], jsonBody = Inr None, formBody = Inr []\<rparr>"

definition example_server :: "bool \<Rightarrow> server" where
  "example_server callback =
     snd (StartScriptHTTPServer (initial_server [(''abc123'', example_script)] callback))"

definition example_waiting :: server where
  "example_waiting = snd (handleScriptHTTPRequest_start 100 example_request (example_server True))"

definition example_pending :: pending where
  "example_pending = \<lparr>pRequestID = ''req_100_1'', pResultChan = 0\<rparr>"

text \<open>A second request of the same kind at clock reading 150, and the state after a stop.\<close>

definition example_two_waiting :: server where
  "example_two_waiting =
     snd (handleScriptHTTPRequest_start 150 example_request example_waiting)"

definition example_stopped :: server where
  "example_stopped =
     (case StopScriptHTTPServer None example_waiting of
        Inl p \<Rightarrow> example_waiting
      | Inr (err, s) \<Rightarrow> s)"

section \<open>Script identifiers\<close>

text \<open>
  C9. \<open>GetScriptIdentifier\<close> never panics. Its result is \<open>PluginID\<close> when that is
  non-empty; otherwise the eight bytes \<open>ID[6:14]\<close> when \<open>len(ID) \<ge> 15\<close>; otherwise
  \<open>ID[6:]\<close> when \<open>len(ID) > 6\<close>; otherwise the whole \<open>ID\<close>. The slice \<open>ID[6:14]\<close> is
  the list of the bytes at the indices 6 to 13, all of them below \<open>len(ID)\<close>.
\<close>

theorem GetScriptIdentifier_total:
  "GetScriptIdentifier script =
     Inr (if PluginID script \<noteq> [] then PluginID script
          else if 15 \<le> length (ID script) then take 8 (drop 6 (ID script))
          else if 6 < length (ID script) then drop 6 (ID script)
          else ID script)
   \<and> (PluginID script = [] \<and> 15 \<le> length (ID script) \<longrightarrow>
        GetScriptIdentifier script = Inr (map (\<lambda>i. ID script ! i) [6..<14])
        \<and> (\<forall>i \<in> set [6..<14]. i < length (ID script)))"
proof -
  have slice: "take 8 (drop 6 xs) = map (\<lambda>i. xs ! i) [6..<14]" if "15 \<le> length xs" for xs :: string
  proof (rule nth_equalityI)
    show "length (take 8 (drop 6 xs)) = length (map (\<lambda>i. xs ! i) [6..<14])"
      using that by simp
  next
    fix i assume "i < length (take 8 (drop 6 xs))"
    then have i: "i < 8" by simp
    then have "6 + i < 14" by simp
    then have "[6..<14] ! i = 6 + i" by (rule nth_upt)
    moreover have "length [6..<14::nat] = 8" by simp
    ultimately have "map (\<lambda>i. xs ! i) [6..<14] ! i = xs ! (6 + i)"
      using i by (simp only: nth_map)
    with i that show "take 8 (drop 6 xs) ! i = map (\<lambda>i. xs ! i) [6..<14] ! i"
      by simp
  qed
  show ?thesis
    by (auto simp: GetScriptIdentifier_def go_slice_def go_slice_from_def slice)
qed

theorem GetScriptIdentifier_total_witness:
  "GetScriptIdentifier \<lparr>ID = ''user_1700000000_ab'', PluginID = [], Name = ''n''\<rparr>
     = Inr ''70000000''
   \<and> GetScriptIdentifier \<lparr>ID = ''user_12'', PluginID = [], Name = ''n''\<rparr> = Inr ''2''
   \<and> GetScriptIdentifier \<lparr>ID = ''abc'', PluginID = [], Name = ''n''\<rparr> = Inr ''abc''
   \<and> GetScriptIdentifier \<lparr>ID = ''abc'', PluginID = ''plug'', Name = ''n''\<rparr> = Inr ''plug''"
  using GetScriptIdentifier_total [of "\<lparr>ID = ''user_1700000000_ab'', PluginID = [], Name = ''n''\<rparr>"]
    GetScriptIdentifier_total [of "\<lparr>ID = ''user_12'', PluginID = [], Name = ''n''\<rparr>"]
    GetScriptIdentifier_total [of "\<lparr>ID = ''abc'', PluginID = [], Name = ''n''\<rparr>"]
    GetScriptIdentifier_total [of "\<lparr>ID = ''abc'', PluginID = ''plug'', Name = ''n''\<rparr>"]
  by simp

section \<open>Request IDs are written and read back faithfully\<close>

text \<open>
  What \<open>Sprintf("%d")\<close> writes for a 64-bit integer, \<open>Sscanf("%d")\<close> reads back; the
  decimal form has no underscore, so \<open>strings.Split\<close> finds the three fields of a
  request ID, and two request IDs are equal only when their timestamps and their
  counters are.
\<close>

lemma digit_char_props:
  assumes "d < 10"
  shows "is_digit (digit_char d)" and "digit_val (digit_char d) = d"
proof -
  from assms have "d \<in> {0, 1, 2, 3, 4, 5, 6, 7, 8, 9}" by auto
  then show "is_digit (digit_char d)" and "digit_val (digit_char d) = d"
    by (auto simp: digit_char_def is_digit_def digit_val_def)
qed

lemma is_digit_not_special:
  assumes "is_digit c"
  shows "c \<noteq> CHR ''_''" and "c \<noteq> CHR ''-''" and "c \<noteq> CHR ''+''" and "\<not> is_blank c"
  using assms by (auto simp: is_digit_def is_blank_def)

lemma format_nat_digits: "list_all is_digit (format_nat n)"
proof (induction n rule: format_nat.induct)
  case (1 n)
  show ?case
  proof (cases "n < 10")
    case True
    then show ?thesis by (simp add: format_nat.simps [of n] digit_char_props)
  next
    case False
    with 1 show ?thesis by (simp add: format_nat.simps [of n] digit_char_props)
  qed
qed

lemma format_nat_nonempty: "format_nat n \<noteq> []"
  by (simp add: format_nat.simps [of n])

lemma parse_digits_snoc: "parse_digits (ds @ [c]) = 10 * parse_digits ds + digit_val c"
  by (simp add: parse_digits_def)

lemma parse_format_nat: "parse_digits (format_nat n) = n"
proof (induction n rule: format_nat.induct)
  case (1 n)
  show ?case
  proof (cases "n < 10")
    case True
    then show ?thesis by (simp add: format_nat.simps [of n] parse_digits_def digit_char_props)
  next
    case False
    with 1 have "parse_digits (format_nat (n div 10)) = n div 10" by simp
    with False show ?thesis
      by (simp add: format_nat.simps [of n] parse_digits_snoc digit_char_props)
  qed
qed


lemma takeWhile_all: "list_all P xs \<Longrightarrow> takeWhile P xs = xs"
  by (induction xs) auto

lemma dropWhile_hd: "xs \<noteq> [] \<Longrightarrow> \<not> P (hd xs) \<Longrightarrow> dropWhile P xs = xs"
  by (cases xs) auto

lemma format_nat_hd: "is_digit (hd (format_nat n))"
  using format_nat_digits [of n] format_nat_nonempty [of n]
  by (cases "format_nat n") auto

lemma Sscanf_d_format_nat:
  assumes "int n < 2 ^ 63"
  shows "Sscanf_d (format_nat n) = Some (word_of_int (int n))"
proof -
  let ?s = "format_nat n"
  have ne: "?s \<noteq> []" by (rule format_nat_nonempty)
  have hd: "is_digit (hd ?s)" by (rule format_nat_hd)
  have 1: "dropWhile is_blank ?s = ?s"
    using ne hd by (simp add: dropWhile_hd is_digit_not_special)
  have 2: "hd ?s \<noteq> CHR ''-''" "hd ?s \<noteq> CHR ''+''"
    using hd by (simp_all add: is_digit_not_special)
  have 3: "takeWhile is_digit ?s = ?s"
    by (simp add: takeWhile_all format_nat_digits)
  show ?thesis
    using assms ne by (simp add: Sscanf_d_def 1 2 3 parse_format_nat)
qed

lemma Sscanf_d_format_neg:
  assumes "int n \<le> 2 ^ 63"
  shows "Sscanf_d (CHR ''-'' # format_nat n) = Some (word_of_int (- int n))"
proof -
  let ?s = "format_nat n"
  have ne: "?s \<noteq> []" by (rule format_nat_nonempty)
  have 3: "takeWhile is_digit ?s = ?s"
    by (simp add: takeWhile_all format_nat_digits)
  have 0: "\<not> is_blank CHR ''-''" by (simp add: is_blank_def)
  show ?thesis
    using assms ne by (simp add: Sscanf_d_def 0 3 parse_format_nat)
qed

lemma Sscanf_d_format_d:
  assumes "- (2 ^ 63) \<le> i" and "i < 2 ^ 63"
  shows "Sscanf_d (format_d i) = Some (word_of_int i)"
proof (cases "i < 0")
  case True
  with assms have "int (nat (- i)) \<le> 2 ^ 63" by simp
  from Sscanf_d_format_neg [OF this] True show ?thesis
    by (simp add: format_d_def)
next
  case False
  with assms have "int (nat i) < 2 ^ 63" by simp
  from Sscanf_d_format_nat [OF this] False show ?thesis
    by (simp add: format_d_def)
qed

lemma Sscanf_d_format_sint: "Sscanf_d (format_d (sint (w :: 64 word))) = Some w"
proof -
  have "- (2 ^ 63) \<le> sint w" "sint w < 2 ^ 63"
    using sint_ge [of w] sint_lt [of w] by simp_all
  then show ?thesis by (simp add: Sscanf_d_format_d)
qed

lemma format_d_no_underscore: "CHR ''_'' \<notin> set (format_d i)"
proof -
  have "CHR ''_'' \<notin> set (format_nat n)" for n
    using format_nat_digits [of n] is_digit_not_special(1)
    by (auto simp: list_all_iff)
  then show ?thesis by (simp add: format_d_def)
qed

lemma split_on_no_sep: "sep \<notin> set xs \<Longrightarrow> split_on sep xs = [xs]"
  by (induction xs) auto

lemma split_on_append: "sep \<notin> set xs \<Longrightarrow> split_on sep (xs @ sep # ys) = xs # split_on sep ys"
  by (induction xs) auto

lemma split_requestID_of:
  "split_on CHR ''_'' (requestID_of now counter) =
     [''req'', format_d (sint now), format_d (sint counter)]"
proof -
  have "requestID_of now counter =
      ''req'' @ CHR ''_'' # (format_d (sint now) @ CHR ''_'' # format_d (sint counter))"
    by (simp add: requestID_of_def)
  moreover have "CHR ''_'' \<notin> set ''req''" by simp
  ultimately show ?thesis
    by (simp only: split_on_append split_on_no_sep format_d_no_underscore not_False_eq_True)
qed

lemma request_expired_requestID_of:
  "request_expired now (requestID_of ts counter) = (60 <s now - ts)"
  by (simp add: request_expired_def split_requestID_of Sscanf_d_format_sint)

lemma requestID_of_inject:
  "requestID_of ts c = requestID_of ts' c' \<longleftrightarrow> ts = ts' \<and> c = c'"
proof
  assume eq: "requestID_of ts c = requestID_of ts' c'"
  then have "split_on CHR ''_'' (requestID_of ts c) = split_on CHR ''_'' (requestID_of ts' c')"
    by simp
  then have "format_d (sint ts) = format_d (sint ts')" "format_d (sint c) = format_d (sint c')"
    by (simp_all add: split_requestID_of)
  then have "Sscanf_d (format_d (sint ts)) = Sscanf_d (format_d (sint ts'))"
    "Sscanf_d (format_d (sint c)) = Sscanf_d (format_d (sint c'))"
    by simp_all
  then show "ts = ts' \<and> c = c'" by (simp add: Sscanf_d_format_sint)
qed simp

section \<open>The handler's exits and the table\<close>

lemma requestID_of_100_1: "requestID_of 100 1 = ''req_100_1''"
  by (simp add: requestID_of_def format_d_def format_nat.simps digit_char_def)

lemma example_server_eq:
  "example_server callback =
     \<lparr>httpServer = True, enabledScripts = [(''abc123'', example_script)], scriptResults = [],
      chans = (\<lambda>_. make_chan), nextChan = 0, requestCounter = 0,
      cleanupTicker = True, cleanupStopChan = True,
      globalScriptEventCallback = callback, emitted = []\<rparr>"
  by (simp add: example_server_def StartScriptHTTPServer_def initial_server_def)

lemma extract_example:
  "extract_request example_request (example_server callback) = Inr (example_script, ''test'')"
  by (simp add: extract_request_def example_request_def example_server_eq TrimPrefix_def)

lemma registered_delete: "\<not> registered (s\<lparr>scriptResults := AList.delete t (scriptResults s)\<rparr>) t"
  by (simp add: registered_def delete_conv)

text \<open>The handler past its checks: the request ID, the new channel, the entry, then the callback or the 500.\<close>

lemma start_registers:
  assumes "extract_request r s = Inr (script, content)"
  shows "handleScriptHTTPRequest_start now r s =
     (let requestID = requestID_of now (requestCounter s + 1);
          s2 = s\<lparr>requestCounter := requestCounter s + 1,
                 chans := (chans s)(nextChan s := make_chan),
                 nextChan := nextChan s + 1,
                 scriptResults := AList.update requestID (nextChan s) (scriptResults s)\<rparr>
      in if globalScriptEventCallback s then
           (Inr \<lparr>pRequestID = requestID, pResultChan = nextChan s\<rparr>,
            s2\<lparr>emitted := emitted s @
               [\<lparr>eventName = ''script.http.execute'', evRequestID = requestID,
                 evScriptID = ID script, evContent = content\<rparr>]\<rparr>)
         else (Inl (http_Error msg_no_executor 500), s2))"
  using assms
  by (simp add: handleScriptHTTPRequest_start_def mint_requestID_def register_chan_def Let_def)

lemma example_waiting_eq:
  "example_waiting =
     \<lparr>httpServer = True, enabledScripts = [(''abc123'', example_script)],
      scriptResults = [(''req_100_1'', 0)],
      chans = (\<lambda>_. make_chan)(0 := make_chan), nextChan = 1, requestCounter = 1,
      cleanupTicker = True, cleanupStopChan = True,
      globalScriptEventCallback = True,
      emitted = [\<lparr>eventName = ''script.http.execute'', evRequestID = ''req_100_1'',
                  evScriptID = ''user_1700000000_ab'', evContent = ''test''\<rparr>]\<rparr>"
  unfolding example_waiting_def start_registers [OF extract_example]
  by (simp add: example_server_eq requestID_of_100_1 example_script_def Let_def)

lemma example_start_pending:
  "fst (handleScriptHTTPRequest_start 100 example_request (example_server True))
     = Inr example_pending"
  unfolding start_registers [OF extract_example]
  by (simp add: example_server_eq requestID_of_100_1 example_pending_def Let_def)

lemma start_without_executor:
  assumes "extract_request r s = Inr (script, content)" and "\<not> globalScriptEventCallback s"
  shows "fst (handleScriptHTTPRequest_start now r s) = Inl (http_Error msg_no_executor 500)"
    and "registered (snd (handleScriptHTTPRequest_start now r s))
           (requestID_of now (requestCounter s + 1))"
  using assms(2)
  by (simp_all add: start_registers [OF assms(1)] Let_def registered_def update_conv)

text \<open>
  C1. The claim: on every exit after the request ID is stored, the entry is gone from
  \<open>scriptResults\<close> when the handler returns. With no callback set the handler
  answers 500 and returns at line 327 with the entry still in the table: the
  request of the example, at a server whose callback is nil.
\<close>

theorem handleScriptHTTPRequest_no_executor_keeps_entry:
  "fst (handleScriptHTTPRequest_start 100 example_request (example_server False))
     = Inl (http_Error msg_no_executor 500)
   \<and> status (http_Error msg_no_executor 500) = 500
   \<and> scriptResults (snd (handleScriptHTTPRequest_start 100 example_request
         (example_server False))) = [(''req_100_1'', 0)]
   \<and> registered (snd (handleScriptHTTPRequest_start 100 example_request
         (example_server False))) ''req_100_1''"
proof -
  let ?s = "example_server False"
  have "handleScriptHTTPRequest_start 100 example_request ?s =
      (Inl (http_Error msg_no_executor 500),
       ?s\<lparr>requestCounter := 1, chans := (chans ?s)(0 := make_chan), nextChan := 1,
          scriptResults := [(''req_100_1'', 0)]\<rparr>)"
    unfolding start_registers [OF extract_example]
    by (simp add: example_server_eq requestID_of_100_1 Let_def)
  then show ?thesis
    by (simp add: registered_def http_Error_def)
qed

section \<open>Delivery and the handler's wait\<close>

lemma wf_registered:
  assumes "wf_server s" and "map_of (scriptResults s) t = Some a"
  shows "a < nextChan s" and "\<not> closed (chans s a)"
proof -
  from assms(2) have "(t, a) \<in> set (scriptResults s)" by (rule map_of_SomeD)
  with assms(1) show "a < nextChan s" and "\<not> closed (chans s a)"
    by (auto simp: wf_server_def list_all_iff)
qed

lemma wf_example_waiting: "wf_server example_waiting"
  by (simp add: wf_server_def example_waiting_eq make_chan_def)

lemma chan_recv_empty_open: "buf c = None \<Longrightarrow> \<not> closed c \<Longrightarrow> chan_recv c = None"
  by (simp add: chan_recv_def)

lemma chan_recv_None_iff: "chan_recv c = None \<longleftrightarrow> buf c = None \<and> \<not> closed c"
  by (simp add: chan_recv_def split: option.splits)

text \<open>
  C5. A handler whose channel got nothing in the 30 seconds (when the timer fires
  its buffer is empty, and no stop or sweep has closed it) is blocked until then,
  has the timeout case as its only ready case, answers 408 with the plain-text
  timeout message, and leaves no entry for its request ID in \<open>scriptResults\<close>.
\<close>

theorem handleScriptHTTPRequest_timeout:
  assumes "buf (chans s (pResultChan p)) = None" and "\<not> closed (chans s (pResultChan p))"
  shows "select_ready False p s = []
    \<and> select_ready True p s = [CaseTimeout]
    \<and> handleScriptHTTPRequest_select CaseTimeout True p s =
        Some (http_Error msg_timeout 408,
              s\<lparr>scriptResults := AList.delete (pRequestID p) (scriptResults s)\<rparr>)
    \<and> status (http_Error msg_timeout 408) = 408
    \<and> body (http_Error msg_timeout 408) = TextBody (msg_timeout @ [CHR 0x0A])
    \<and> \<not> registered (s\<lparr>scriptResults := AList.delete (pRequestID p) (scriptResults s)\<rparr>)
          (pRequestID p)"
  using assms
  by (simp add: select_ready_def chan_recv_empty_open handleScriptHTTPRequest_select_def
      http_Error_def registered_delete)

theorem handleScriptHTTPRequest_timeout_witness:
  "select_ready True example_pending example_waiting = [CaseTimeout]
   \<and> map_option (status \<circ> fst)
        (handleScriptHTTPRequest_select CaseTimeout True example_pending example_waiting) = Some 408
   \<and> map_option (scriptResults \<circ> snd)
        (handleScriptHTTPRequest_select CaseTimeout True example_pending example_waiting) = Some []"
  using handleScriptHTTPRequest_timeout [of example_waiting example_pending]
  by (simp add: example_waiting_eq example_pending_def make_chan_def)

text \<open>
  C8, as amended. For a request ID that is not in \<open>scriptResults\<close> (never stored,
  already removed by its handler, or swept), \<open>SetScriptHTTPResult\<close> returns normally,
  without blocking or panicking, and leaves the whole state as it was: the table
  and every channel. The Go function has no result value.
\<close>

theorem SetScriptHTTPResult_unregistered:
  "\<not> registered s requestID \<Longrightarrow>
     SetScriptHTTPResult requestID result s = Inr s
     \<and> SetScriptHTTPResult_returns requestID result s = Inr []"
  by (simp add: SetScriptHTTPResult_returns_def SetScriptHTTPResult_def registered_def)

theorem SetScriptHTTPResult_unregistered_witness:
  "\<not> registered example_waiting ''req_100_2''
   \<and> SetScriptHTTPResult ''req_100_2'' \<lparr>ReturnValue = Some (JString ''HELLO''), Error = []\<rparr>
        example_waiting = Inr example_waiting
   \<and> SetScriptHTTPResult_returns ''req_100_2''
        \<lparr>ReturnValue = Some (JString ''HELLO''), Error = []\<rparr> example_waiting = Inr []"
proof -
  have "\<not> registered example_waiting ''req_100_2''"
    by (simp add: registered_def example_waiting_eq)
  with SetScriptHTTPResult_unregistered [of example_waiting "''req_100_2''"] show ?thesis
    by simp
qed

lemma SetScriptHTTPResult_registered:
  assumes "map_of (scriptResults s) t = Some a" and "\<not> closed (chans s a)"
  shows "SetScriptHTTPResult t v s =
     Inr (if buf (chans s a) = None then s\<lparr>chans := (chans s)(a := (chans s a)\<lparr>buf := Some v\<rparr>)\<rparr>
          else s)"
  using assms by (simp add: SetScriptHTTPResult_def chan_send_nb_def)

text \<open>
  C2. For a request ID in the table whose channel is still empty, two calls of
  \<open>SetScriptHTTPResult\<close> in a row, with outcomes \<open>o1\<close> then \<open>o2\<close>: the first puts
  \<open>o1\<close> in the buffer, the second changes nothing, and the handler waiting on the
  channel receives \<open>o1\<close> and answers with it. The buffer holds one value at most
  (it is an \<open>option\<close>).
\<close>

theorem SetScriptHTTPResult_first_write_wins:
  assumes "wf_server s" and "map_of (scriptResults s) t = Some a" and "buf (chans s a) = None"
  shows "SetScriptHTTPResult t o1 s = Inr (s\<lparr>chans := (chans s)(a := (chans s a)\<lparr>buf := Some o1\<rparr>)\<rparr>)
    \<and> SetScriptHTTPResult t o2 (s\<lparr>chans := (chans s)(a := (chans s a)\<lparr>buf := Some o1\<rparr>)\<rparr>)
        = Inr (s\<lparr>chans := (chans s)(a := (chans s a)\<lparr>buf := Some o1\<rparr>)\<rparr>)
    \<and> map_option fst (handleScriptHTTPRequest_select CaseResult timer_fired
          \<lparr>pRequestID = t, pResultChan = a\<rparr>
          (s\<lparr>chans := (chans s)(a := (chans s a)\<lparr>buf := Some o1\<rparr>)\<rparr>))
        = Some (write_result o1)"
proof -
  let ?s1 = "s\<lparr>chans := (chans s)(a := (chans s a)\<lparr>buf := Some o1\<rparr>)\<rparr>"
  from assms have op: "\<not> closed (chans s a)" by (simp add: wf_registered)
  have 1: "SetScriptHTTPResult t o1 s = Inr ?s1"
    using assms(2,3) op by (simp add: SetScriptHTTPResult_registered)
  have "map_of (scriptResults ?s1) t = Some a" "\<not> closed (chans ?s1 a)" "buf (chans ?s1 a) \<noteq> None"
    using assms(2) op by simp_all
  from SetScriptHTTPResult_registered [OF this(1,2), of o2] this(3)
  have 2: "SetScriptHTTPResult t o2 ?s1 = Inr ?s1"
    by simp
  have 3: "map_option fst (handleScriptHTTPRequest_select CaseResult timer_fired
          \<lparr>pRequestID = t, pResultChan = a\<rparr> ?s1) = Some (write_result o1)"
    by (simp add: handleScriptHTTPRequest_select_def chan_recv_def)
  from 1 2 3 show ?thesis by blast
qed

theorem SetScriptHTTPResult_first_write_wins_witness:
  "SetScriptHTTPResult ''req_100_1'' \<lparr>ReturnValue = Some (JString ''HELLO''), Error = []\<rparr>
       example_waiting
     = Inr (example_waiting\<lparr>chans := (chans example_waiting)
          (0 := \<lparr>buf = Some \<lparr>ReturnValue = Some (JString ''HELLO''), Error = []\<rparr>,
                 closed = False\<rparr>)\<rparr>)
   \<and> SetScriptHTTPResult ''req_100_1'' \<lparr>ReturnValue = None, Error = ''late''\<rparr>
       (example_waiting\<lparr>chans := (chans example_waiting)
          (0 := \<lparr>buf = Some \<lparr>ReturnValue = Some (JString ''HELLO''), Error = []\<rparr>,
                 closed = False\<rparr>)\<rparr>)
     = Inr (example_waiting\<lparr>chans := (chans example_waiting)
          (0 := \<lparr>buf = Some \<lparr>ReturnValue = Some (JString ''HELLO''), Error = []\<rparr>,
                 closed = False\<rparr>)\<rparr>)
   \<and> map_option fst (handleScriptHTTPRequest_select CaseResult False example_pending
       (example_waiting\<lparr>chans := (chans example_waiting)
          (0 := \<lparr>buf = Some \<lparr>ReturnValue = Some (JString ''HELLO''), Error = []\<rparr>,
                 closed = False\<rparr>)\<rparr>))
     = Some (json_response (JObject [(''returnValue'', JString ''HELLO'')]))"
proof -
  have r: "map_of (scriptResults example_waiting) ''req_100_1'' = Some 0"
    and b: "buf (chans example_waiting 0) = None"
    and c: "chans example_waiting 0 = \<lparr>buf = None, closed = False\<rparr>"
    by (simp_all add: example_waiting_eq make_chan_def)
  from SetScriptHTTPResult_first_write_wins [OF wf_example_waiting r b,
      of "\<lparr>ReturnValue = Some (JString ''HELLO''), Error = []\<rparr>"
         "\<lparr>ReturnValue = None, Error = ''late''\<rparr>" False]
  show ?thesis
    by (simp add: c example_pending_def write_result_def marshal_interface_def)
qed

text \<open>
  C8 as stated has \<open>SetScriptHTTPResult\<close> return false for a request ID that is not
  in the table. The function returns no value: the call for the unknown
  \<open>req_100_2\<close>, which delivers nothing, hands back nothing, not \<open>false\<close>, and so
  does the call for the stored \<open>req_100_1\<close>, which fills the channel. The caller is
  not told which of the two happened.
\<close>

theorem SetScriptHTTPResult_result_counterexample:
  "SetScriptHTTPResult_returns ''req_100_2''
       \<lparr>ReturnValue = Some (JString ''HELLO''), Error = []\<rparr> example_waiting = Inr []
   \<and> SetScriptHTTPResult_returns ''req_100_2''
       \<lparr>ReturnValue = Some (JString ''HELLO''), Error = []\<rparr> example_waiting \<noteq> Inr [False]
   \<and> SetScriptHTTPResult_returns ''req_100_1''
       \<lparr>ReturnValue = Some (JString ''HELLO''), Error = []\<rparr> example_waiting = Inr []
   \<and> SetScriptHTTPResult ''req_100_2'' \<lparr>ReturnValue = Some (JString ''HELLO''), Error = []\<rparr>
       example_waiting = Inr example_waiting
   \<and> SetScriptHTTPResult ''req_100_1'' \<lparr>ReturnValue = Some (JString ''HELLO''), Error = []\<rparr>
       example_waiting
     = Inr (example_waiting\<lparr>chans := (chans example_waiting)
          (0 := \<lparr>buf = Some \<lparr>ReturnValue = Some (JString ''HELLO''), Error = []\<rparr>,
                 closed = False\<rparr>)\<rparr>)"
  by (simp add: SetScriptHTTPResult_returns_def SetScriptHTTPResult_def chan_send_nb_def
      example_waiting_eq make_chan_def)

section \<open>The response of the handler\<close>

lemma select_result:
  assumes "chan_recv (chans s (pResultChan p)) = Some (result, ch)"
  shows "handleScriptHTTPRequest_select CaseResult timer_fired p s =
     Some (write_result result,
           s\<lparr>chans := (chans s)(pResultChan p := ch),
             scriptResults := AList.delete (pRequestID p) (scriptResults s)\<rparr>)"
  using assms by (simp add: handleScriptHTTPRequest_select_def)

text \<open>
  C10. When the handler receives an outcome, the error wins: the body is
  \<open>{"error": ...}\<close> exactly when the \<open>Error\<close> field is non-empty, whatever the
  \<open>ReturnValue\<close> field holds, and \<open>{"returnValue": ...}\<close> otherwise, with \<open>null\<close> for
  a nil payload.
\<close>

theorem handleScriptHTTPRequest_error_precedence:
  assumes "chan_recv (chans s (pResultChan p)) = Some (result, ch)"
  shows "map_option fst (handleScriptHTTPRequest_select CaseResult timer_fired p s) =
       Some (if Error result \<noteq> []
             then json_response (JObject [(''error'', JString (Error result))])
             else json_response (JObject [(''returnValue'',
                    (case ReturnValue result of None \<Rightarrow> JNull | Some v \<Rightarrow> v))]))
    \<and> ((map_option fst (handleScriptHTTPRequest_select CaseResult timer_fired p s) =
          Some (json_response (JObject [(''error'', JString (Error result))])))
        = (Error result \<noteq> []))"
  by (simp add: select_result [OF assms] write_result_def marshal_interface_def json_response_def)

theorem handleScriptHTTPRequest_error_precedence_witness:
  "map_option fst (handleScriptHTTPRequest_select CaseResult False example_pending
      (example_waiting\<lparr>chans := (chans example_waiting)
          (0 := \<lparr>buf = Some \<lparr>ReturnValue = Some (JString ''HELLO''), Error = ''boom''\<rparr>,
                 closed = False\<rparr>)\<rparr>))
     = Some (json_response (JObject [(''error'', JString ''boom'')]))
   \<and> map_option fst (handleScriptHTTPRequest_select CaseResult False example_pending
      (example_waiting\<lparr>chans := (chans example_waiting)
          (0 := \<lparr>buf = Some \<lparr>ReturnValue = None, Error = []\<rparr>, closed = False\<rparr>)\<rparr>))
     = Some (json_response (JObject [(''returnValue'', JNull)]))"
proof -
  let ?s = "\<lambda>r. example_waiting\<lparr>chans := (chans example_waiting)
          (0 := \<lparr>buf = Some r, closed = False\<rparr>)\<rparr>"
  have c: "chan_recv (chans (?s r) (pResultChan example_pending))
      = Some (r, \<lparr>buf = None, closed = False\<rparr>)" for r
    by (simp add: chan_recv_def example_pending_def)
  from handleScriptHTTPRequest_error_precedence
      [OF c [of "\<lparr>ReturnValue = Some (JString ''HELLO''), Error = ''boom''\<rparr>"],
        where timer_fired = False]
    handleScriptHTTPRequest_error_precedence
      [OF c [of "\<lparr>ReturnValue = None, Error = []\<rparr>"], where timer_fired = False]
  show ?thesis by simp
qed

text \<open>
  C7 as stated lets the success body omit \<open>returnValue\<close> when there is no payload. The
  handler encodes a map with the key \<open>returnValue\<close>, so for the outcome with a nil
  payload and no error the body is \<open>{"returnValue": null}\<close>, not \<open>{}\<close>.
\<close>

theorem handleScriptHTTPRequest_omits_returnValue_counterexample:
  "map_option (body \<circ> fst) (handleScriptHTTPRequest_select CaseResult False example_pending
      (example_waiting\<lparr>chans := (chans example_waiting)
          (0 := \<lparr>buf = Some \<lparr>ReturnValue = None, Error = []\<rparr>, closed = False\<rparr>)\<rparr>))
     = Some (JsonBody (JObject [(''returnValue'', JNull)]))
   \<and> map_option (body \<circ> fst) (handleScriptHTTPRequest_select CaseResult False example_pending
      (example_waiting\<lparr>chans := (chans example_waiting)
          (0 := \<lparr>buf = Some \<lparr>ReturnValue = None, Error = []\<rparr>, closed = False\<rparr>)\<rparr>))
     \<noteq> Some (JsonBody (JObject []))"
  by (simp add: handleScriptHTTPRequest_select_def chan_recv_def example_pending_def
      write_result_def marshal_interface_def json_response_def)

text \<open>
  C7, as amended. The response by outcome: an outcome without error gives status 200
  and the JSON object \<open>{"returnValue": v}\<close>, where \<open>v\<close> is the payload, or \<open>null\<close> when
  there is none; an outcome with an error message gives status 200 and
  \<open>{"error": message}\<close>; the timeout gives a plain-text 408; a missing executor
  callback gives a plain-text 500.
\<close>

theorem handleScriptHTTPRequest_responses:
  "(chan_recv (chans s (pResultChan p)) = Some (result, ch) \<and> Error result = [] \<longrightarrow>
      map_option fst (handleScriptHTTPRequest_select CaseResult timer_fired p s) =
        Some \<lparr>headers = cors_headers @ [(''Content-Type'', ''application/json'')],
              status = 200,
              body = JsonBody (JObject [(''returnValue'',
                (case ReturnValue result of None \<Rightarrow> JNull | Some v \<Rightarrow> v))])\<rparr>)
   \<and> (chan_recv (chans s (pResultChan p)) = Some (result, ch) \<and> Error result \<noteq> [] \<longrightarrow>
      map_option fst (handleScriptHTTPRequest_select CaseResult timer_fired p s) =
        Some \<lparr>headers = cors_headers @ [(''Content-Type'', ''application/json'')],
              status = 200,
              body = JsonBody (JObject [(''error'', JString (Error result))])\<rparr>)
   \<and> map_option fst (handleScriptHTTPRequest_select CaseTimeout True p s) =
        Some \<lparr>headers = cors_headers @ [(''Content-Type'', ''text/plain; charset=utf-8''),
                (''X-Content-Type-Options'', ''nosniff'')],
              status = 408,
              body = TextBody (msg_timeout @ [CHR 0x0A])\<rparr>
   \<and> (extract_request r s = Inr (script, content) \<and> \<not> globalScriptEventCallback s \<longrightarrow>
      fst (handleScriptHTTPRequest_start now r s) =
        Inl \<lparr>headers = cors_headers @ [(''Content-Type'', ''text/plain; charset=utf-8''),
                (''X-Content-Type-Options'', ''nosniff'')],
              status = 500,
              body = TextBody (msg_no_executor @ [CHR 0x0A])\<rparr>)"
proof -
  have 1: "chan_recv (chans s (pResultChan p)) = Some (result, ch) \<Longrightarrow>
      map_option fst (handleScriptHTTPRequest_select CaseResult timer_fired p s) =
        Some (write_result result)"
    by (simp add: select_result)
  have 3: "map_option fst (handleScriptHTTPRequest_select CaseTimeout True p s)
      = Some (http_Error msg_timeout 408)"
    by (simp add: handleScriptHTTPRequest_select_def)
  have 4: "extract_request r s = Inr (script, content) \<Longrightarrow> \<not> globalScriptEventCallback s \<Longrightarrow>
      fst (handleScriptHTTPRequest_start now r s) = Inl (http_Error msg_no_executor 500)"
    by (simp add: start_registers Let_def)
  show ?thesis
    using 1 3 4
    by (auto simp: write_result_def marshal_interface_def json_response_def http_Error_def)
qed

theorem handleScriptHTTPRequest_responses_witness:
  "map_option fst (handleScriptHTTPRequest_select CaseResult False example_pending
      (example_waiting\<lparr>chans := (chans example_waiting)
          (0 := \<lparr>buf = Some \<lparr>ReturnValue = Some (JString ''HELLO''), Error = []\<rparr>,
                 closed = False\<rparr>)\<rparr>))
     = Some \<lparr>headers = cors_headers @ [(''Content-Type'', ''application/json'')],
              status = 200,
              body = JsonBody (JObject [(''returnValue'', JString ''HELLO'')])\<rparr>
   \<and> map_option fst (handleScriptHTTPRequest_select CaseResult False example_pending
      (example_waiting\<lparr>chans := (chans example_waiting)
          (0 := \<lparr>buf = Some \<lparr>ReturnValue = None, Error = ''boom''\<rparr>, closed = False\<rparr>)\<rparr>))
     = Some \<lparr>headers = cors_headers @ [(''Content-Type'', ''application/json'')],
              status = 200,
              body = JsonBody (JObject [(''error'', JString ''boom'')])\<rparr>
   \<and> map_option (status \<circ> fst)
        (handleScriptHTTPRequest_select CaseTimeout True example_pending example_waiting) = Some 408
   \<and> fst (handleScriptHTTPRequest_start 100 example_request (example_server False)) =
        Inl \<lparr>headers = cors_headers @ [(''Content-Type'', ''text/plain; charset=utf-8''),
                (''X-Content-Type-Options'', ''nosniff'')],
              status = 500,
              body = TextBody (msg_no_executor @ [CHR 0x0A])\<rparr>"
proof -
  let ?s = "\<lambda>r. example_waiting\<lparr>chans := (chans example_waiting)
          (0 := \<lparr>buf = Some r, closed = False\<rparr>)\<rparr>"
  have c: "chan_recv (chans (?s r) (pResultChan example_pending))
      = Some (r, \<lparr>buf = None, closed = False\<rparr>)" for r
    by (simp add: chan_recv_def example_pending_def)
  have cb: "\<not> globalScriptEventCallback (example_server False)"
    by (simp add: example_server_eq)
  from handleScriptHTTPRequest_responses [of "?s \<lparr>ReturnValue = Some (JString ''HELLO''), Error = []\<rparr>"
      example_pending "\<lparr>ReturnValue = Some (JString ''HELLO''), Error = []\<rparr>"
      "\<lparr>buf = None, closed = False\<rparr>" False example_request example_script "''test''" 100]
  have 1: "map_option fst (handleScriptHTTPRequest_select CaseResult False example_pending
      (?s \<lparr>ReturnValue = Some (JString ''HELLO''), Error = []\<rparr>))
     = Some \<lparr>headers = cors_headers @ [(''Content-Type'', ''application/json'')],
              status = 200,
              body = JsonBody (JObject [(''returnValue'', JString ''HELLO'')])\<rparr>"
    using c by simp
  from handleScriptHTTPRequest_responses [of "?s \<lparr>ReturnValue = None, Error = ''boom''\<rparr>"
      example_pending "\<lparr>ReturnValue = None, Error = ''boom''\<rparr>"
      "\<lparr>buf = None, closed = False\<rparr>" False example_request example_script "''test''" 100]
  have 2: "map_option fst (handleScriptHTTPRequest_select CaseResult False example_pending
      (?s \<lparr>ReturnValue = None, Error = ''boom''\<rparr>))
     = Some \<lparr>headers = cors_headers @ [(''Content-Type'', ''application/json'')],
              status = 200,
              body = JsonBody (JObject [(''error'', JString ''boom'')])\<rparr>"
    using c by simp
  from handleScriptHTTPRequest_responses [of "example_server False"
      example_pending "\<lparr>ReturnValue = None, Error = ''boom''\<rparr>"
      "\<lparr>buf = None, closed = False\<rparr>" False example_request example_script "''test''" 100]
  have 4: "fst (handleScriptHTTPRequest_start 100 example_request (example_server False)) =
        Inl \<lparr>headers = cors_headers @ [(''Content-Type'', ''text/plain; charset=utf-8''),
                (''X-Content-Type-Options'', ''nosniff'')],
              status = 500,
              body = TextBody (msg_no_executor @ [CHR 0x0A])\<rparr>"
    using extract_example [of False] cb by simp
  have 3: "map_option (status \<circ> fst)
        (handleScriptHTTPRequest_select CaseTimeout True example_pending example_waiting) = Some 408"
    by (simp add: handleScriptHTTPRequest_select_def http_Error_def)
  from 1 2 3 4 show ?thesis by blast
qed

section \<open>The clean-up tick and the stop\<close>

text \<open>
  Both loops close the channel and delete the entry of the request IDs they pick.
  While the channels in the table are open and pairwise different, neither loop
  panics, and its result is the table filtered and the store with the picked
  channels closed.
\<close>

lemma delete_filter: "AList.delete k al = filter (\<lambda>e. fst e \<noteq> k) al"
  by (induction al) auto

lemma close_chans_empty: "close_chans {} h = h"
  by (simp add: close_chans_def)

lemma close_chans_upd:
  "a \<notin> A \<Longrightarrow> close_chans A (h(a := (h a)\<lparr>closed := True\<rparr>)) = close_chans (insert a A) h"
  by (auto simp: close_chans_def fun_eq_iff)

lemma expired_entries_Cons:
  "{x \<in> set ((k, a) # es). P (fst x)} =
     (if P k then insert (k, a) {x \<in> set es. P (fst x)} else {x \<in> set es. P (fst x)})"
  by auto

lemma cleanup_range_closed_form:
  assumes "distinct (map snd es)" and "\<forall>e \<in> set es. \<not> closed (chans s (snd e))"
  shows "cleanup_range now es s n =
     Inr (s\<lparr>chans := close_chans (snd ` {e \<in> set es. request_expired now (fst e)}) (chans s),
            scriptResults := filter (\<lambda>e. \<not> (request_expired now (fst e) \<and> fst e \<in> fst ` set es))
                                (scriptResults s)\<rparr>,
          n + length (filter (\<lambda>e. request_expired now (fst e)) es))"
  using assms
proof (induction es arbitrary: s n)
  case Nil
  then show ?case by (simp add: close_chans_empty)
next
  case (Cons e es)
  obtain k a where e: "e = (k, a)" by (cases e)
  from Cons.prems have d: "distinct (map snd es)" and na: "a \<notin> snd ` set es"
    and op: "\<not> closed (chans s a)" and ops: "\<forall>e \<in> set es. \<not> closed (chans s (snd e))"
    by (auto simp: e)
  let ?A = "snd ` {x \<in> set es. request_expired now (fst x)}"
  let ?A' = "snd ` {x \<in> set ((k, a) # es). request_expired now (fst x)}"
  let ?P = "\<lambda>e. \<not> (request_expired now (fst e) \<and> fst e \<in> fst ` set es)"
  let ?P' = "\<lambda>e. \<not> (request_expired now (fst e) \<and> fst e \<in> fst ` set ((k, a) # es))"
  show ?case
  proof (cases "request_expired now k")
    case False
    have f: "filter ?P (scriptResults s) = filter ?P' (scriptResults s)"
      using False by (intro filter_cong) auto
    have c: "?A = ?A'"
      using False by (simp only: expired_entries_Cons if_False)
    have "cleanup_range now (e # es) s n = cleanup_range now es s n"
      using False by (simp add: e)
    also have "\<dots> = Inr (s\<lparr>chans := close_chans ?A (chans s),
        scriptResults := filter ?P (scriptResults s)\<rparr>,
        n + length (filter (\<lambda>e. request_expired now (fst e)) es))"
      by (rule Cons.IH [OF d ops])
    also have "\<dots> = Inr (s\<lparr>chans := close_chans ?A' (chans s),
        scriptResults := filter ?P' (scriptResults s)\<rparr>,
        n + length (filter (\<lambda>e. request_expired now (fst e)) ((k, a) # es)))"
      unfolding f c using False by simp
    finally show ?thesis by (simp only: e)
  next
    case True
    let ?s1 = "s\<lparr>chans := (chans s)(a := (chans s a)\<lparr>closed := True\<rparr>),
                 scriptResults := AList.delete k (scriptResults s)\<rparr>"
    have ops1: "\<forall>e \<in> set es. \<not> closed (chans ?s1 (snd e))"
      using ops na by auto
    have f: "filter ?P (scriptResults ?s1) = filter ?P' (scriptResults s)"
      using True by (auto simp: delete_filter intro: filter_cong)
    have "a \<notin> ?A" using na by auto
    then have "close_chans ?A ((chans s)(a := (chans s a)\<lparr>closed := True\<rparr>))
        = close_chans (insert a ?A) (chans s)"
      by (rule close_chans_upd)
    moreover have "?A' = insert a ?A"
      using True by (simp only: expired_entries_Cons if_True image_insert snd_conv)
    ultimately have c: "close_chans ?A (chans ?s1) = close_chans ?A' (chans s)"
      by simp
    have st: "?s1\<lparr>chans := X, scriptResults := Y\<rparr> = s\<lparr>chans := X, scriptResults := Y\<rparr>" for X Y
      by simp
    have "cleanup_range now (e # es) s n = cleanup_range now es ?s1 (n + 1)"
      using True op by (simp add: e chan_close_def)
    also have "\<dots> = Inr (?s1\<lparr>chans := close_chans ?A (chans ?s1),
        scriptResults := filter ?P (scriptResults ?s1)\<rparr>,
        n + 1 + length (filter (\<lambda>e. request_expired now (fst e)) es))"
      by (rule Cons.IH [OF d ops1])
    also have "\<dots> = Inr (s\<lparr>chans := close_chans ?A' (chans s),
        scriptResults := filter ?P' (scriptResults s)\<rparr>,
        n + length (filter (\<lambda>e. request_expired now (fst e)) ((k, a) # es)))"
      unfolding f c st using True by simp
    finally show ?thesis by (simp only: e)
  qed
qed

lemma close_all_results_closed_form:
  assumes "distinct (map snd es)" and "\<forall>e \<in> set es. \<not> closed (chans s (snd e))"
  shows "close_all_results es s =
     Inr (s\<lparr>chans := close_chans (snd ` set es) (chans s),
            scriptResults := filter (\<lambda>e. fst e \<notin> fst ` set es) (scriptResults s)\<rparr>)"
  using assms
proof (induction es arbitrary: s)
  case Nil
  then show ?case by (simp add: close_chans_empty)
next
  case (Cons e es)
  obtain k a where e: "e = (k, a)" by (cases e)
  from Cons.prems have d: "distinct (map snd es)" and na: "a \<notin> snd ` set es"
    and op: "\<not> closed (chans s a)" and ops: "\<forall>e \<in> set es. \<not> closed (chans s (snd e))"
    by (auto simp: e)
  let ?s1 = "s\<lparr>chans := (chans s)(a := (chans s a)\<lparr>closed := True\<rparr>),
               scriptResults := AList.delete k (scriptResults s)\<rparr>"
  let ?P = "\<lambda>e. fst e \<notin> fst ` set es"
  let ?P' = "\<lambda>e. fst e \<notin> fst ` set ((k, a) # es)"
  have ops1: "\<forall>e \<in> set es. \<not> closed (chans ?s1 (snd e))"
    using ops na by auto
  have f: "filter ?P (scriptResults ?s1) = filter ?P' (scriptResults s)"
    by (auto simp: delete_filter intro: filter_cong)
  have "close_chans (snd ` set es) ((chans s)(a := (chans s a)\<lparr>closed := True\<rparr>))
      = close_chans (insert a (snd ` set es)) (chans s)"
    using na by (rule close_chans_upd)
  then have c: "close_chans (snd ` set es) (chans ?s1) = close_chans (snd ` set ((k, a) # es)) (chans s)"
    by simp
  have st: "?s1\<lparr>chans := X, scriptResults := Y\<rparr> = s\<lparr>chans := X, scriptResults := Y\<rparr>" for X Y
    by simp
  have "close_all_results (e # es) s = close_all_results es ?s1"
    using op by (simp add: e chan_close_def)
  also have "\<dots> = Inr (?s1\<lparr>chans := close_chans (snd ` set es) (chans ?s1),
      scriptResults := filter ?P (scriptResults ?s1)\<rparr>)"
    by (rule Cons.IH [OF d ops1])
  also have "\<dots> = Inr (s\<lparr>chans := close_chans (snd ` set ((k, a) # es)) (chans s),
      scriptResults := filter ?P' (scriptResults s)\<rparr>)"
    unfolding f c st by simp
  finally show ?case by (simp only: e)
qed

lemma wf_entries_open:
  "wf_server s \<Longrightarrow> \<forall>e \<in> set (scriptResults s). \<not> closed (chans s (snd e))"
  by (simp add: wf_server_def list_all_iff)

lemma tick_closed_form:
  assumes "wf_server s"
  shows "cleanupExpiredResults_tick now s =
     Inr (s\<lparr>chans := close_chans (snd ` {e \<in> set (scriptResults s). request_expired now (fst e)}) (chans s),
            scriptResults := filter (\<lambda>e. \<not> request_expired now (fst e)) (scriptResults s)\<rparr>,
          length (filter (\<lambda>e. request_expired now (fst e)) (scriptResults s)))"
proof -
  have d: "distinct (map snd (scriptResults s))" using assms by (simp add: wf_server_def)
  have "filter (\<lambda>e. \<not> (request_expired now (fst e) \<and> fst e \<in> fst ` set (scriptResults s))) (scriptResults s)
      = filter (\<lambda>e. \<not> request_expired now (fst e)) (scriptResults s)"
    by (intro filter_cong) auto
  with cleanup_range_closed_form [OF d wf_entries_open [OF assms], of now 0] show ?thesis
    by (simp add: cleanupExpiredResults_tick_def)
qed

lemma stop_closed_form:
  assumes "wf_server s" and "httpServer s"
  shows "StopScriptHTTPServer None s =
     Inr (None, s\<lparr>cleanupTicker := False, cleanupStopChan := False,
                  chans := close_chans (snd ` set (scriptResults s)) (chans s),
                  scriptResults := [], httpServer := False\<rparr>)"
proof -
  let ?s1 = "s\<lparr>cleanupTicker := False, cleanupStopChan := False\<rparr>"
  have d: "distinct (map snd (scriptResults ?s1))" using assms by (simp add: wf_server_def)
  have o: "\<forall>e \<in> set (scriptResults ?s1). \<not> closed (chans ?s1 (snd e))"
    using wf_entries_open [OF assms(1)] by simp
  have "filter (\<lambda>e. fst e \<notin> fst ` set (scriptResults s)) (scriptResults s) = []"
    by (simp add: filter_empty_conv)
  with close_all_results_closed_form [OF d o] assms(2) show ?thesis
    by (simp add: StopScriptHTTPServer_def)
qed

lemma map_of_filter_key:
  "map_of (filter (\<lambda>e. Q (fst e)) al) k = (if Q k then map_of al k else None)"
  by (induction al) auto

lemma distinct_snd_same_key:
  assumes "distinct (map snd al)" and "(k, a) \<in> set al" and "(k', a) \<in> set al"
  shows "k = k'"
proof -
  from assms(1) have "inj_on snd (set al)" by (simp add: distinct_map)
  from inj_onD [OF this _ assms(2,3)] show ?thesis by simp
qed

lemma sint_sub_nonneg:
  fixes a b :: "64 word"
  assumes "0 \<le> sint a" and "0 \<le> sint b"
  shows "sint (a - b) = sint a - sint b"
proof -
  have "sint a < 2 ^ 63" "sint b < 2 ^ 63"
    using sint_lt [of a] sint_lt [of b] by simp_all
  with assms have "- (2 ^ 63) \<le> sint a - sint b" "sint a - sint b < 2 ^ 63"
    by simp_all
  then have "signed_take_bit 63 (sint a - sint b) = sint a - sint b"
    by (simp add: signed_take_bit_int_eq_self)
  then show ?thesis by (simp add: sint_word_ariths)
qed

lemma request_expired_minted:
  assumes "0 \<le> sint now" and "0 \<le> sint ts"
  shows "request_expired now (requestID_of ts c) \<longleftrightarrow> 60 < sint now - sint ts"
  by (simp add: request_expired_requestID_of word_sless_alt sint_sub_nonneg [OF assms])

text \<open>
  C3. One tick of the clean-up task, at a clock reading \<open>now\<close> that is not before
  1970, on a table whose channels are open and pairwise different. The tick does
  not panic. A stored request ID made at the clock reading \<open>ts\<close> (not before 1970)
  stays in the table exactly when \<open>now - ts \<le> 60\<close>; in general an entry is
  removed exactly when the test of line 139 holds of its request ID, and the other
  entries keep their channels untouched. Whether a handler still waits plays no
  part: the channel of a removed entry is closed, which makes the receive case of
  the waiting handler ready. The count is the number of entries removed.
\<close>

theorem cleanupExpiredResults_tick_sweeps:
  assumes "wf_server s" and "0 \<le> sint now"
  shows "\<exists>s' n. cleanupExpiredResults_tick now s = Inr (s', n)
    \<and> (\<forall>ts c. 0 \<le> sint ts \<and> registered s (requestID_of ts c) \<longrightarrow>
          (registered s' (requestID_of ts c) \<longleftrightarrow> sint now - sint ts \<le> 60))
    \<and> (\<forall>t. map_of (scriptResults s') t =
          (if request_expired now t then None else map_of (scriptResults s) t))
    \<and> (\<forall>p. map_of (scriptResults s) (pRequestID p) = Some (pResultChan p)
             \<and> request_expired now (pRequestID p) \<longrightarrow>
          closed (chans s' (pResultChan p)) \<and> CaseResult \<in> set (select_ready False p s'))
    \<and> (\<forall>t a. map_of (scriptResults s') t = Some a \<longrightarrow> chans s' a = chans s a)
    \<and> n = length (scriptResults s) - length (scriptResults s')"
proof -
  let ?E = "snd ` {e \<in> set (scriptResults s). request_expired now (fst e)}"
  let ?R = "filter (\<lambda>e. \<not> request_expired now (fst e)) (scriptResults s)"
  let ?s' = "s\<lparr>chans := close_chans ?E (chans s), scriptResults := ?R\<rparr>"
  let ?n = "length (filter (\<lambda>e. request_expired now (fst e)) (scriptResults s))"
  have tick: "cleanupExpiredResults_tick now s = Inr (?s', ?n)"
    by (rule tick_closed_form [OF assms(1)])
  have m: "map_of (scriptResults ?s') t =
      (if request_expired now t then None else map_of (scriptResults s) t)" for t
    using map_of_filter_key [of "\<lambda>k. \<not> request_expired now k" "scriptResults s" t]
    by simp
  have minted: "registered ?s' (requestID_of ts c) \<longleftrightarrow> sint now - sint ts \<le> 60"
    if "0 \<le> sint ts" and "registered s (requestID_of ts c)" for ts c
    using that m [of "requestID_of ts c"] request_expired_minted [OF assms(2) that(1), of c]
    by (auto simp: registered_def)
  have woken: "closed (chans ?s' (pResultChan p)) \<and> CaseResult \<in> set (select_ready False p ?s')"
    if "map_of (scriptResults s) (pRequestID p) = Some (pResultChan p)"
      and "request_expired now (pRequestID p)" for p
  proof -
    from that(1) have "(pRequestID p, pResultChan p) \<in> set (scriptResults s)"
      by (rule map_of_SomeD)
    with that(2) have "pResultChan p \<in> ?E" by force
    then have "closed (chans ?s' (pResultChan p))" by (simp add: close_chans_def)
    then show ?thesis by (simp add: select_ready_def chan_recv_def split: option.splits)
  qed
  have kept: "chans ?s' a = chans s a" if "map_of (scriptResults ?s') t = Some a" for t a
  proof -
    from that have in_R: "(t, a) \<in> set ?R" by (auto dest: map_of_SomeD)
    then have ta: "(t, a) \<in> set (scriptResults s)" and ne: "\<not> request_expired now t" by auto
    have "a \<notin> ?E"
    proof
      assume "a \<in> ?E"
      then obtain t' where "(t', a) \<in> set (scriptResults s)" and "request_expired now t'" by auto
      moreover have "distinct (map snd (scriptResults s))" using assms(1) by (simp add: wf_server_def)
      ultimately show False using ta ne distinct_snd_same_key by metis
    qed
    then show ?thesis by (simp add: close_chans_def)
  qed
  have n: "?n = length (scriptResults s) - length (scriptResults ?s')"
    using sum_length_filter_compl [of "\<lambda>e. request_expired now (fst e)" "scriptResults s"]
    by simp
  from tick minted m woken kept n show ?thesis by blast
qed

lemma requestID_of_150_2: "requestID_of 150 2 = ''req_150_2''"
  by (simp add: requestID_of_def format_d_def format_nat.simps digit_char_def)

lemma extract_example_waiting:
  "extract_request example_request example_waiting = Inr (example_script, ''test'')"
  by (simp add: extract_request_def example_request_def example_waiting_eq TrimPrefix_def)

lemma example_two_waiting_eq:
  "example_two_waiting =
     \<lparr>httpServer = True, enabledScripts = [(''abc123'', example_script)],
      scriptResults = [(''req_100_1'', 0), (''req_150_2'', 1)],
      chans = ((\<lambda>_. make_chan)(0 := make_chan))(1 := make_chan), nextChan = 2,
      requestCounter = 2, cleanupTicker = True, cleanupStopChan = True,
      globalScriptEventCallback = True,
      emitted = [\<lparr>eventName = ''script.http.execute'', evRequestID = ''req_100_1'',
                  evScriptID = ''user_1700000000_ab'', evContent = ''test''\<rparr>,
                 \<lparr>eventName = ''script.http.execute'', evRequestID = ''req_150_2'',
                  evScriptID = ''user_1700000000_ab'', evContent = ''test''\<rparr>]\<rparr>"
  unfolding example_two_waiting_def start_registers [OF extract_example_waiting]
  by (simp add: example_waiting_eq requestID_of_150_2 example_script_def Let_def)

lemma wf_example_two_waiting: "wf_server example_two_waiting"
  by (simp add: wf_server_def example_two_waiting_eq make_chan_def)

theorem cleanupExpiredResults_tick_sweeps_witness:
  "(case cleanupExpiredResults_tick 161 example_two_waiting of
      Inl p \<Rightarrow> False
    | Inr (s', n) \<Rightarrow>
        \<not> registered s' ''req_100_1'' \<and> registered s' ''req_150_2''
        \<and> closed (chans s' 0) \<and> \<not> closed (chans s' 1)
        \<and> CaseResult \<in> set (select_ready False example_pending s'))"
proof -
  have now: "0 \<le> sint (161 :: 64 word)" by simp
  from cleanupExpiredResults_tick_sweeps [OF wf_example_two_waiting now]
  obtain s' n where tick: "cleanupExpiredResults_tick 161 example_two_waiting = Inr (s', n)"
    and minted: "\<And>ts c. 0 \<le> sint ts \<and> registered example_two_waiting (requestID_of ts c) \<Longrightarrow>
          (registered s' (requestID_of ts c) \<longleftrightarrow> sint (161 :: 64 word) - sint ts \<le> 60)"
    and woken: "\<And>p. map_of (scriptResults example_two_waiting) (pRequestID p) = Some (pResultChan p)
             \<and> request_expired 161 (pRequestID p) \<Longrightarrow>
          closed (chans s' (pResultChan p)) \<and> CaseResult \<in> set (select_ready False p s')"
    and kept: "\<And>t a. map_of (scriptResults s') t = Some a \<Longrightarrow> chans s' a = chans example_two_waiting a"
    and gone: "\<And>t. map_of (scriptResults s') t =
          (if request_expired 161 t then None else map_of (scriptResults example_two_waiting) t)"
    by blast
  have r1: "registered example_two_waiting (requestID_of 100 1)"
    and r2: "registered example_two_waiting (requestID_of 150 2)"
    by (simp_all add: registered_def example_two_waiting_eq requestID_of_100_1 requestID_of_150_2)
  from minted [of 100 1] r1 have 1: "\<not> registered s' ''req_100_1''"
    by (simp add: requestID_of_100_1)
  from minted [of 150 2] r2 have 2: "registered s' ''req_150_2''"
    by (simp add: requestID_of_150_2)
  have e1: "request_expired 161 ''req_100_1''"
    using request_expired_minted [of 161 100 1] by (simp add: requestID_of_100_1)
  have e2: "\<not> request_expired 161 ''req_150_2''"
    using request_expired_minted [of 161 150 2] by (simp add: requestID_of_150_2)
  from woken [of example_pending] e1
  have 3: "closed (chans s' 0)" "CaseResult \<in> set (select_ready False example_pending s')"
    by (simp_all add: example_pending_def example_two_waiting_eq)
  from gone [of "''req_150_2''"] e2 have "map_of (scriptResults s') ''req_150_2'' = Some 1"
    by (simp add: example_two_waiting_eq)
  from kept [OF this] have 4: "\<not> closed (chans s' 1)"
    by (simp add: example_two_waiting_eq make_chan_def)
  from tick 1 2 3 4 show ?thesis by simp
qed

lemma zero_response: "write_result zero_result = json_response (JObject [(''returnValue'', JNull)])"
  by (simp add: write_result_def zero_result_def marshal_interface_def)

text \<open>
  C6, as amended. When \<open>httpServer.Close()\<close> reports no error, the stop empties the
  table, closes every channel that was in it and clears the handles of the
  clean-up task. Every handler that was waiting on one of these channels has its
  receive case ready at once, before its timer. A handler whose channel was empty
  receives the zero outcome and answers as for a successful empty outcome: 200 with
  \<open>{"returnValue": null}\<close>.
\<close>

theorem StopScriptHTTPServer_wakes_handlers:
  assumes "wf_server s" and "httpServer s"
  shows "\<exists>s'. StopScriptHTTPServer None s = Inr (None, s')
    \<and> scriptResults s' = [] \<and> \<not> httpServer s' \<and> \<not> cleanupTicker s' \<and> \<not> cleanupStopChan s'
    \<and> (\<forall>t a. map_of (scriptResults s) t = Some a \<longrightarrow> closed (chans s' a))
    \<and> (\<forall>p. map_of (scriptResults s) (pRequestID p) = Some (pResultChan p) \<longrightarrow>
          CaseResult \<in> set (select_ready False p s'))
    \<and> (\<forall>p. map_of (scriptResults s) (pRequestID p) = Some (pResultChan p)
             \<and> buf (chans s (pResultChan p)) = None \<longrightarrow>
          handleScriptHTTPRequest_select CaseResult False p s' =
            Some (json_response (JObject [(''returnValue'', JNull)]), s'))"
proof -
  let ?s' = "s\<lparr>cleanupTicker := False, cleanupStopChan := False,
                chans := close_chans (snd ` set (scriptResults s)) (chans s),
                scriptResults := [], httpServer := False\<rparr>"
  have stop: "StopScriptHTTPServer None s = Inr (None, ?s')"
    by (rule stop_closed_form [OF assms])
  have cl: "closed (chans ?s' a)" if "map_of (scriptResults s) t = Some a" for t a
  proof -
    from that have "(t, a) \<in> set (scriptResults s)" by (rule map_of_SomeD)
    then have "a \<in> snd ` set (scriptResults s)" by force
    then show ?thesis by (simp add: close_chans_def)
  qed
  have ready: "CaseResult \<in> set (select_ready False p ?s')"
    if "map_of (scriptResults s) (pRequestID p) = Some (pResultChan p)" for p
    using cl [OF that] by (simp add: select_ready_def chan_recv_def split: option.splits)
  have resp: "handleScriptHTTPRequest_select CaseResult False p ?s' =
      Some (json_response (JObject [(''returnValue'', JNull)]), ?s')"
    if "map_of (scriptResults s) (pRequestID p) = Some (pResultChan p)"
      and "buf (chans s (pResultChan p)) = None" for p
  proof -
    have b: "buf (chans ?s' (pResultChan p)) = None"
      using that(2) by (simp add: close_chans_def)
    with cl [OF that(1)] have "chan_recv (chans ?s' (pResultChan p)) =
        Some (zero_result, chans ?s' (pResultChan p))"
      by (simp add: chan_recv_def)
    from select_result [OF this, where timer_fired = False] show ?thesis
      by (simp add: zero_response)
  qed
  from stop cl ready resp show ?thesis by (intro exI [of _ ?s']) simp
qed

lemma example_stopped_eq:
  "StopScriptHTTPServer None example_waiting = Inr (None, example_stopped)"
  "example_stopped = example_waiting\<lparr>cleanupTicker := False, cleanupStopChan := False,
        chans := close_chans {0} (chans example_waiting),
        scriptResults := [], httpServer := False\<rparr>"
proof -
  have h: "httpServer example_waiting" by (simp add: example_waiting_eq)
  have "snd ` set (scriptResults example_waiting) = {0}" by (simp add: example_waiting_eq)
  with stop_closed_form [OF wf_example_waiting h]
  have "StopScriptHTTPServer None example_waiting =
      Inr (None, example_waiting\<lparr>cleanupTicker := False, cleanupStopChan := False,
        chans := close_chans {0} (chans example_waiting),
        scriptResults := [], httpServer := False\<rparr>)"
    by simp
  then show "example_stopped = example_waiting\<lparr>cleanupTicker := False, cleanupStopChan := False,
        chans := close_chans {0} (chans example_waiting),
        scriptResults := [], httpServer := False\<rparr>"
    and "StopScriptHTTPServer None example_waiting = Inr (None, example_stopped)"
    by (simp_all add: example_stopped_def)
qed

theorem StopScriptHTTPServer_wakes_handlers_witness:
  "StopScriptHTTPServer None example_waiting = Inr (None, example_stopped)
   \<and> scriptResults example_stopped = []
   \<and> closed (chans example_stopped 0)
   \<and> CaseResult \<in> set (select_ready False example_pending example_stopped)
   \<and> handleScriptHTTPRequest_select CaseResult False example_pending example_stopped =
        Some (json_response (JObject [(''returnValue'', JNull)]), example_stopped)"
proof -
  have h: "httpServer example_waiting" by (simp add: example_waiting_eq)
  from StopScriptHTTPServer_wakes_handlers [OF wf_example_waiting h]
  obtain s' where stop: "StopScriptHTTPServer None example_waiting = Inr (None, s')"
    and empty: "scriptResults s' = []"
    and cl: "\<And>t a. map_of (scriptResults example_waiting) t = Some a \<Longrightarrow> closed (chans s' a)"
    and ready: "\<And>p. map_of (scriptResults example_waiting) (pRequestID p) = Some (pResultChan p)
          \<Longrightarrow> CaseResult \<in> set (select_ready False p s')"
    and resp: "\<And>p. map_of (scriptResults example_waiting) (pRequestID p) = Some (pResultChan p)
             \<and> buf (chans example_waiting (pResultChan p)) = None \<Longrightarrow>
          handleScriptHTTPRequest_select CaseResult False p s' =
            Some (json_response (JObject [(''returnValue'', JNull)]), s')"
    by blast
  from stop have s': "s' = example_stopped" by (simp add: example_stopped_def)
  have r: "map_of (scriptResults example_waiting) (pRequestID example_pending)
      = Some (pResultChan example_pending)"
    and b: "buf (chans example_waiting (pResultChan example_pending)) = None"
    by (simp_all add: example_waiting_eq example_pending_def make_chan_def)
  from cl [OF r] have "closed (chans s' 0)" by (simp add: example_pending_def)
  with stop empty ready [OF r] resp [of example_pending] r b show ?thesis
    by (simp add: s')
qed

text \<open>
  C6 as stated has a woken handler resolve to a "server stopped" condition. The
  handler of the example, woken by the stop, takes the receive case with the zero
  outcome and writes what it writes for a delivered outcome with no payload and
  no error, the 200 response \<open>{"returnValue": null}\<close>: the source has no response
  of its own for a stopped server.
\<close>

theorem StopScriptHTTPServer_server_stopped_counterexample:
  "StopScriptHTTPServer None example_waiting = Inr (None, example_stopped)
   \<and> handleScriptHTTPRequest_select CaseResult False example_pending example_stopped =
        Some (write_result \<lparr>ReturnValue = None, Error = []\<rparr>, example_stopped)
   \<and> write_result \<lparr>ReturnValue = None, Error = []\<rparr> =
        \<lparr>headers = cors_headers @ [(''Content-Type'', ''application/json'')],
         status = 200,
         body = JsonBody (JObject [(''returnValue'', JNull)])\<rparr>"
proof -
  have c: "chan_recv (chans example_stopped (pResultChan example_pending)) =
      Some (zero_result, chans example_stopped (pResultChan example_pending))"
    by (simp add: example_stopped_eq(2) close_chans_def chan_recv_def example_pending_def
        example_waiting_eq make_chan_def)
  have "example_stopped\<lparr>chans := (chans example_stopped)
         (pResultChan example_pending := chans example_stopped (pResultChan example_pending)),
       scriptResults := AList.delete (pRequestID example_pending) (scriptResults example_stopped)\<rparr>
      = example_stopped"
    by (simp add: example_stopped_eq(2))
  with select_result [OF c, where timer_fired = False]
  have "handleScriptHTTPRequest_select CaseResult False example_pending example_stopped =
        Some (write_result zero_result, example_stopped)"
    by simp
  then show ?thesis
    by (simp add: example_stopped_eq(1) zero_result_def write_result_def marshal_interface_def
        json_response_def)
qed

section \<open>Request IDs are unique\<close>

lemma sint_succ:
  fixes c :: "64 word"
  assumes "sint c + 1 < 2 ^ 63"
  shows "sint (c + 1) = sint c + 1"
proof -
  have "- (2 ^ 63) \<le> sint c" using sint_ge [of c] by simp
  with assms have "signed_take_bit 63 (sint c + 1) = sint c + 1"
    by (simp add: signed_take_bit_int_eq_self)
  then show ?thesis by (simp add: sint_word_ariths)
qed

lemma mint_run_Cons:
  "mint_run (now # nows) s =
     (requestID_of now (requestCounter s + 1), requestCounter s + 1)
       # mint_run nows (s\<lparr>requestCounter := requestCounter s + 1\<rparr>)"
  by (simp add: mint_requestID_def Let_def)

lemma mint_run_entries:
  assumes "sint (requestCounter s) + int (length nows) < 2 ^ 63"
    and "e \<in> set (mint_run nows s)"
  shows "sint (requestCounter s) < sint (snd e) \<and> (\<exists>now. fst e = requestID_of now (snd e))"
  using assms
proof (induction nows arbitrary: s)
  case Nil
  then show ?case by simp
next
  case (Cons now nows)
  let ?c = "requestCounter s + 1"
  let ?s = "s\<lparr>requestCounter := ?c\<rparr>"
  from Cons.prems(1) have c: "sint ?c = sint (requestCounter s) + 1"
    by (intro sint_succ) simp
  from Cons.prems(2) consider "e = (requestID_of now ?c, ?c)" | "e \<in> set (mint_run nows ?s)"
    by (auto simp: mint_run_Cons simp del: mint_run.simps)
  then show ?case
  proof cases
    case 1
    with c show ?thesis by auto
  next
    case 2
    have "sint (requestCounter ?s) + int (length nows) < 2 ^ 63"
      using Cons.prems(1) c by simp
    from Cons.IH [OF this 2] c show ?thesis by simp
  qed
qed

text \<open>
  C4. Any run of registrations that does not take the 64-bit counter past its
  largest value, whatever the clock readings (all in one second, too): the counters
  the request IDs are made from are strictly increasing, and the request IDs are
  pairwise different.
\<close>

theorem mint_requestID_unique:
  assumes "sint (requestCounter s) + int (length nows) < 2 ^ 63"
  shows "distinct (map fst (mint_run nows s))
    \<and> sorted_wrt (<) (map (\<lambda>e. sint (snd e)) (mint_run nows s))
    \<and> length (mint_run nows s) = length nows"
  using assms
proof (induction nows arbitrary: s)
  case Nil
  then show ?case by simp
next
  case (Cons now nows)
  let ?c = "requestCounter s + 1"
  let ?s = "s\<lparr>requestCounter := ?c\<rparr>"
  from Cons.prems have c: "sint ?c = sint (requestCounter s) + 1"
    by (intro sint_succ) simp
  have bound: "sint (requestCounter ?s) + int (length nows) < 2 ^ 63"
    using Cons.prems c by simp
  have later: "sint ?c < sint (snd e) \<and> (\<exists>now'. fst e = requestID_of now' (snd e))"
    if "e \<in> set (mint_run nows ?s)" for e
    using mint_run_entries [OF bound that] by simp
  have fresh: "requestID_of now ?c \<notin> fst ` set (mint_run nows ?s)"
  proof
    assume "requestID_of now ?c \<in> fst ` set (mint_run nows ?s)"
    then obtain e where e: "e \<in> set (mint_run nows ?s)" "fst e = requestID_of now ?c" by auto
    from later [OF e(1)] obtain now' where "sint ?c < sint (snd e)"
      "fst e = requestID_of now' (snd e)" by auto
    with e(2) show False by (auto simp: requestID_of_inject)
  qed
  have "\<forall>e \<in> set (mint_run nows ?s). sint ?c < sint (snd e)"
    using later by blast
  with Cons.IH [OF bound] fresh show ?case
    by (simp add: mint_run_Cons del: mint_run.simps)
qed

theorem mint_requestID_unique_witness:
  "mint_run [100, 100, 100] (example_server True) =
     [(''req_100_1'', 1), (''req_100_2'', 2), (''req_100_3'', 3)]
   \<and> distinct (map fst (mint_run [100, 100, 100] (example_server True)))
   \<and> sorted_wrt (<) (map (\<lambda>e. sint (snd e)) (mint_run [100, 100, 100] (example_server True)))"
proof -
  have b: "sint (requestCounter (example_server True)) + int (length [100, 100, 100 :: 64 word]) < 2 ^ 63"
    by (simp add: example_server_eq)
  have "mint_run [100, 100, 100] (example_server True) =
     [(''req_100_1'', 1), (''req_100_2'', 2), (''req_100_3'', 3)]"
    by (simp add: mint_requestID_def example_server_eq requestID_of_def format_d_def
        format_nat.simps digit_char_def)
  with mint_requestID_unique [OF b] show ?thesis by simp
qed

section \<open>The invariant of the table\<close>

text \<open>
  Every step keeps the channels in the table open, allocated and pairwise
  different, and under this invariant no step panics: a delivery never sends on a
  closed channel, and neither loop closes a channel twice. (The steps are atomic
  here. In the source \<open>SetScriptHTTPResult\<close> releases the read lock before it
  sends, so a sweep or a stop can close the channel between its lookup and its send;
  that interleaving is outside this model.)
\<close>

lemma set_update_subset: "set (AList.update k v al) \<subseteq> insert (k, v) (set al)"
  by (induction al) auto

lemma distinct_snd_update:
  assumes "distinct (map snd al)" and "v \<notin> snd ` set al"
  shows "distinct (map snd (AList.update k v al))"
  using assms
proof (induction al)
  case Nil
  then show ?case by simp
next
  case (Cons e al)
  obtain k' v' where e: "e = (k', v')" by (cases e)
  show ?case
  proof (cases "k' = k")
    case True
    with Cons.prems show ?thesis by (simp add: e)
  next
    case False
    have "v' \<notin> snd ` set (AList.update k v al)"
      using Cons.prems set_update_subset [of k v al] by (auto simp: e)
    with False Cons show ?thesis by (simp add: e)
  qed
qed

lemma wf_register:
  assumes "wf_server s"
  shows "wf_server (s\<lparr>requestCounter := c,
            chans := (chans s)(nextChan s := make_chan),
            nextChan := nextChan s + 1,
            scriptResults := AList.update t (nextChan s) (scriptResults s)\<rparr>)"
proof -
  let ?rs = "scriptResults s"
  from assms have d1: "distinct (map fst ?rs)" and d2: "distinct (map snd ?rs)"
    and all: "\<forall>e \<in> set ?rs. snd e < nextChan s \<and> \<not> closed (chans s (snd e))"
    by (simp_all add: wf_server_def list_all_iff)
  from all have fresh: "nextChan s \<notin> snd ` set ?rs" by auto
  have "snd e < nextChan s + 1 \<and> \<not> closed (((chans s)(nextChan s := make_chan)) (snd e))"
    if "e \<in> set (AList.update t (nextChan s) ?rs)" for e
  proof -
    from that set_update_subset [of t "nextChan s" ?rs]
    consider "e = (t, nextChan s)" | "e \<in> set ?rs" by auto
    then show ?thesis
    proof cases
      case 1
      then show ?thesis by (simp add: make_chan_def)
    next
      case 2
      with all have "snd e < nextChan s" "\<not> closed (chans s (snd e))" by auto
      then show ?thesis by simp
    qed
  qed
  then have "\<forall>e \<in> set (AList.update t (nextChan s) ?rs).
      snd e < nextChan s + 1 \<and> \<not> closed (((chans s)(nextChan s := make_chan)) (snd e))"
    by blast
  with d1 d2 fresh show ?thesis
    by (simp add: wf_server_def list_all_iff distinct_update distinct_snd_update)
qed

lemma wf_emitted: "wf_server (s\<lparr>emitted := x\<rparr>) = wf_server s"
  by (simp add: wf_server_def)

lemma wf_handler_start:
  assumes "wf_server s"
  shows "wf_server (snd (handleScriptHTTPRequest_start now r s))"
proof (cases "extract_request r s")
  case (Inl resp)
  with assms show ?thesis by (simp add: handleScriptHTTPRequest_start_def)
next
  case (Inr x)
  obtain script content where "x = (script, content)" by (cases x)
  with Inr have "extract_request r s = Inr (script, content)" by simp
  from start_registers [OF this] wf_register [OF assms] show ?thesis
    by (simp add: Let_def wf_emitted)
qed

lemma wf_delete:
  assumes "wf_server s"
  shows "wf_server (s\<lparr>scriptResults := AList.delete t (scriptResults s)\<rparr>)"
  using assms
  by (auto simp: wf_server_def list_all_iff delete_filter distinct_map_filter)

lemma wf_chan_update:
  assumes "wf_server s" and "closed ch = closed (chans s a)"
  shows "wf_server (s\<lparr>chans := (chans s)(a := ch)\<rparr>)"
  using assms by (auto simp: wf_server_def list_all_iff)

lemma chan_recv_closed: "chan_recv c = Some (v, ch) \<Longrightarrow> closed ch = closed c"
  by (auto simp: chan_recv_def split: option.splits if_splits)

lemma wf_select:
  assumes "wf_server s" and "handleScriptHTTPRequest_select c timer_fired p s = Some (resp, s')"
  shows "wf_server s'"
proof (cases c)
  case CaseResult
  with assms(2) obtain v ch where r: "chan_recv (chans s (pResultChan p)) = Some (v, ch)"
    and s': "s' = s\<lparr>chans := (chans s)(pResultChan p := ch),
                   scriptResults := AList.delete (pRequestID p) (scriptResults s)\<rparr>"
    by (auto simp: handleScriptHTTPRequest_select_def split: option.splits)
  from wf_chan_update [OF assms(1) chan_recv_closed [OF r]]
  have "wf_server (s\<lparr>chans := (chans s)(pResultChan p := ch)\<rparr>)" .
  from wf_delete [OF this, of "pRequestID p"] show ?thesis by (simp add: s')
next
  case CaseTimeout
  with assms(2) have "s' = s\<lparr>scriptResults := AList.delete (pRequestID p) (scriptResults s)\<rparr>"
    by (auto simp: handleScriptHTTPRequest_select_def split: if_splits)
  with wf_delete [OF assms(1)] show ?thesis by simp
qed

text \<open>Both exits of the wait delete the entry of the handler's request ID.\<close>

lemma select_removes_entry:
  assumes "handleScriptHTTPRequest_select c timer_fired p s = Some (resp, s')"
  shows "\<not> registered s' (pRequestID p)"
  using assms
  by (cases c) (auto simp: handleScriptHTTPRequest_select_def registered_def delete_conv
      split: option.splits if_splits)

lemma wf_deliver:
  assumes "wf_server s"
  shows "\<exists>s'. SetScriptHTTPResult t v s = Inr s' \<and> wf_server s'"
proof (cases "map_of (scriptResults s) t")
  case None
  with assms show ?thesis by (simp add: SetScriptHTTPResult_def)
next
  case (Some a)
  from wf_registered [OF assms Some] have op: "\<not> closed (chans s a)" by simp
  from SetScriptHTTPResult_registered [OF Some op, of v]
    wf_chan_update [OF assms, of "(chans s a)\<lparr>buf := Some v\<rparr>" a] assms
  show ?thesis by auto
qed

lemma wf_tick:
  assumes "wf_server s"
  shows "\<exists>s' n. cleanupExpiredResults_tick now s = Inr (s', n) \<and> wf_server s'"
proof -
  let ?E = "snd ` {e \<in> set (scriptResults s). request_expired now (fst e)}"
  let ?R = "filter (\<lambda>e. \<not> request_expired now (fst e)) (scriptResults s)"
  from assms have d1: "distinct (map fst (scriptResults s))"
    and d2: "distinct (map snd (scriptResults s))"
    and all: "\<forall>e \<in> set (scriptResults s). snd e < nextChan s \<and> \<not> closed (chans s (snd e))"
    by (simp_all add: wf_server_def list_all_iff)
  have "snd e \<notin> ?E" if "e \<in> set ?R" for e
  proof
    assume "snd e \<in> ?E"
    then obtain t' where "(t', snd e) \<in> set (scriptResults s)" "request_expired now t'" by auto
    moreover from that have "(fst e, snd e) \<in> set (scriptResults s)" "\<not> request_expired now (fst e)"
      by auto
    ultimately show False using distinct_snd_same_key [OF d2] by metis
  qed
  then have "\<forall>e \<in> set ?R. snd e < nextChan s \<and> \<not> closed (close_chans ?E (chans s) (snd e))"
    using all by (auto simp: close_chans_def)
  with d1 d2 have "wf_server (s\<lparr>chans := close_chans ?E (chans s), scriptResults := ?R\<rparr>)"
    by (simp add: wf_server_def list_all_iff distinct_map_filter)
  with tick_closed_form [OF assms, of now] show ?thesis by simp
qed

lemma wf_stop:
  assumes "wf_server s"
  shows "\<exists>err s'. StopScriptHTTPServer closeErr s = Inr (err, s') \<and> wf_server s'"
proof (cases "httpServer s")
  case False
  with assms show ?thesis by (simp add: StopScriptHTTPServer_def)
next
  case True
  show ?thesis
  proof (cases closeErr)
    case None
    from stop_closed_form [OF assms True] show ?thesis
      by (simp add: None wf_server_def)
  next
    case (Some e)
    with True assms show ?thesis
      by (simp add: StopScriptHTTPServer_def wf_server_def)
  qed
qed

lemma wf_step:
  assumes "wf_server s"
  shows "\<exists>s'. step a s = Inr s' \<and> wf_server s'"
proof (cases a)
  case (Request now r)
  with wf_handler_start [OF assms] show ?thesis by simp
next
  case (Select c timer_fired p)
  show ?thesis
  proof (cases "handleScriptHTTPRequest_select c timer_fired p s")
    case None
    with assms Select show ?thesis by simp
  next
    case (Some x)
    obtain resp s' where "x = (resp, s')" by (cases x)
    with Some wf_select [OF assms] Select show ?thesis by auto
  qed
next
  case (Deliver t v)
  with wf_deliver [OF assms] show ?thesis by simp
next
  case (Tick now)
  from wf_tick [OF assms, of now] Tick show ?thesis by auto
next
  case Start
  with assms show ?thesis by (simp add: StartScriptHTTPServer_def wf_server_def)
next
  case (Stop closeErr)
  from wf_stop [OF assms, of closeErr] Stop show ?thesis by auto
qed

lemma wf_initial: "wf_server (initial_server scripts callback)"
  by (simp add: wf_server_def initial_server_def)

text \<open>
  In every run of atomic steps, from a state that satisfies the invariant, no step
  panics and the invariant holds at the end: in particular from the state at
  process start.
\<close>

lemma run_never_panics:
  assumes "wf_server s"
  shows "\<exists>s'. run acts s = Inr s' \<and> wf_server s'"
  using assms
proof (induction acts arbitrary: s)
  case Nil
  then show ?case by simp
next
  case (Cons a acts)
  from wf_step [OF Cons.prems, of a] obtain s1 where "step a s = Inr s1" "wf_server s1" by blast
  with Cons.IH [of s1] show ?case by simp
qed

theorem run_from_start_never_panics:
  "\<exists>s'. run acts (initial_server scripts callback) = Inr s' \<and> wf_server s'"
  by (rule run_never_panics [OF wf_initial])

end
